theory Spec2Isabelle
  imports Complex_Main
begin

section \<open>Python values, exceptions and the membership operator\<close>

text \<open>
  The functions of the repository are untyped Python: an argument annotated \<open>str\<close> can
  be any value at run time (\<open>generate_selenium_script\<close> returns \<open>Optional[str]\<close>), and
  JSON documents are nested values. One datatype holds the values that occur; a dictionary
  is an association list with string keys, read with \<open>map_of\<close>.
\<close>

datatype py_value =
    PyNone
  | PyBool bool
  | PyInt int
  | PyFloat real
  | PyStr string
  | PyList "py_value list"
  | PyDict "(string \<times> py_value) list"

text \<open>An exception is a value; \<open>exn_str\<close> is \<open>str(e)\<close>.\<close>

datatype exn =
    TypeError string
  | KeyError string
  | IndexError string
  | AttributeError string
  | OtherError string

fun exn_str :: "exn \<Rightarrow> string" where
  "exn_str (TypeError m) = m"
| "exn_str (KeyError k) = [CHR 0x27] @ k @ [CHR 0x27]"
| "exn_str (IndexError m) = m"
| "exn_str (AttributeError m) = m"
| "exn_str (OtherError m) = m"

text \<open>\<open>type(v).__name__\<close>.\<close>

fun type_name :: "py_value \<Rightarrow> string" where
  "type_name PyNone = ''NoneType''"
| "type_name (PyBool b) = ''bool''"
| "type_name (PyInt i) = ''int''"
| "type_name (PyFloat x) = ''float''"
| "type_name (PyStr s) = ''str''"
| "type_name (PyList xs) = ''list''"
| "type_name (PyDict d) = ''dict''"

text \<open>\<open>s.startswith(p)\<close> for strings.\<close>

fun startswith :: "string \<Rightarrow> string \<Rightarrow> bool" where
  "startswith s [] = True"
| "startswith [] (p # ps) = False"
| "startswith (c # cs) (p # ps) = (c = p \<and> startswith cs ps)"

text \<open>\<open>needle in hay\<close> for two strings: \<open>needle\<close> occurs as a contiguous run of \<open>hay\<close>.\<close>

fun str_contains :: "string \<Rightarrow> string \<Rightarrow> bool" where
  "str_contains needle [] = (needle = [])"
| "str_contains needle (c # cs) = (startswith (c # cs) needle \<or> str_contains needle cs)"

text \<open>
  \<open>needle in hay\<close> for a string \<open>needle\<close> and any \<open>hay\<close>: substring search in a string,
  membership in a list, key membership in a dictionary, and \<open>TypeError\<close> on a value that
  is not a container.
\<close>

fun py_in :: "string \<Rightarrow> py_value \<Rightarrow> exn + bool" where
  "py_in needle (PyStr hay) = Inr (str_contains needle hay)"
| "py_in needle (PyList xs) = Inr (PyStr needle \<in> set xs)"
| "py_in needle (PyDict d) = Inr (needle \<in> fst ` set d)"
| "py_in needle v =
     Inl (TypeError (''argument of type '' @ [CHR 0x27] @ type_name v @ [CHR 0x27] @ '' is not iterable''))"

section \<open>Script validation (selenium\_generator.py)\<close>

text \<open>
  The validation report is the dictionary built by \<open>validate_script\<close>. The dictionary
  returned from the \<open>except\<close> branch has no \<open>warnings\<close> key, which is \<open>None\<close> here.
\<close>

record report =
  valid :: bool
  warnings :: "string list option"
  errors :: "string list"

definition required_imports :: "string list" where
  "required_imports = [''selenium'', ''webdriver'', ''WebDriverWait'']"

definition required_methods :: "string list" where
  "required_methods = [''find_element'', ''click'', ''send_keys'']"

text \<open>The loop \<open>for imp in required_imports\<close>, appending to the warnings.\<close>

fun check_imports :: "string list \<Rightarrow> py_value \<Rightarrow> string list \<Rightarrow> exn + string list" where
  "check_imports [] script ws = Inr ws"
| "check_imports (imp # imps) script ws =
     (case py_in imp script of
        Inl e \<Rightarrow> Inl e
      | Inr found \<Rightarrow>
          check_imports imps script
            (if \<not> found then ws @ [''Missing import: '' @ imp] else ws))"

text \<open>\<open>any(method in script for method in required_methods)\<close>: stops at the first hit.\<close>

fun any_method :: "string list \<Rightarrow> py_value \<Rightarrow> exn + bool" where
  "any_method [] script = Inr False"
| "any_method (m # ms) script =
     (case py_in m script of
        Inl e \<Rightarrow> Inl e
      | Inr found \<Rightarrow> if found then Inr True else any_method ms script)"

text \<open>\<open>'try:' not in script or 'except' not in script\<close>, the right operand evaluated
  only when the left one is false.\<close>

definition missing_error_handling :: "py_value \<Rightarrow> exn + bool" where
  "missing_error_handling script =
     (case py_in ''try:'' script of
        Inl e \<Rightarrow> Inl e
      | Inr has_try \<Rightarrow>
          if \<not> has_try then Inr True
          else (case py_in ''except'' script of
                  Inl e \<Rightarrow> Inl e
                | Inr has_except \<Rightarrow> Inr (\<not> has_except)))"

text \<open>The body of the \<open>try\<close> block: \<open>Inl\<close> is an exception escaping it.\<close>

definition validate_script_body :: "py_value \<Rightarrow> exn + report" where
  "validate_script_body script =
     (let r0 = \<lparr>valid = True, warnings = Some [], errors = []\<rparr> in
      case check_imports required_imports script [] of
        Inl e \<Rightarrow> Inl e
      | Inr ws \<Rightarrow>
          let r1 = r0\<lparr>warnings := Some ws\<rparr> in
          (case any_method required_methods script of
             Inl e \<Rightarrow> Inl e
           | Inr has_methods \<Rightarrow>
               let r2 = (if \<not> has_methods
                         then r1\<lparr>errors := errors r1 @ [''No Selenium methods found''],
                                 valid := False\<rparr>
                         else r1) in
               (case missing_error_handling script of
                  Inl e \<Rightarrow> Inl e
                | Inr missing \<Rightarrow>
                    Inr (if missing
                         then r2\<lparr>warnings := Some (ws @ [''Missing error handling''])\<rparr>
                         else r2))))"

definition validate_script :: "py_value \<Rightarrow> report" where
  "validate_script script =
     (case validate_script_body script of
        Inr r \<Rightarrow> r
      | Inl e \<Rightarrow> \<lparr>valid = False, warnings = None, errors = [exn_str e]\<rparr>)"

section \<open>Chunking (document\_processor.py)\<close>

type_synonym dict = "(string \<times> py_value) list"

text \<open>
  \<open>d[k] = v\<close> on a dictionary: the value of a present key is replaced where it stands, a
  new key goes to the end. \<open>{**d, k: v}\<close> is this store on a copy of \<open>d\<close>.
\<close>

fun dict_set :: "string \<Rightarrow> py_value \<Rightarrow> dict \<Rightarrow> dict" where
  "dict_set k v [] = [(k, v)]"
| "dict_set k v ((k', v') # d) = (if k' = k then (k, v) # d else (k', v') # dict_set k v d)"

text \<open>\<open>d.get(k)\<close>, with \<open>None\<close> of the option type for an absent key.\<close>

definition dict_get :: "dict \<Rightarrow> string \<Rightarrow> py_value option" where
  "dict_get d k = map_of d k"

record document =
  content :: string
  metadata :: dict

text \<open>
  The loop \<open>for i, chunk in enumerate(chunks)\<close> of \<open>chunk_text\<close>: \<open>tot\<close> is
  \<open>len(chunks)\<close>, \<open>i\<close> the running index and \<open>docs\<close> the list \<open>chunked_documents\<close>.
\<close>

fun chunk_loop :: "dict \<Rightarrow> nat \<Rightarrow> nat \<Rightarrow> string list \<Rightarrow> document list \<Rightarrow> document list" where
  "chunk_loop md tot i [] docs = docs"
| "chunk_loop md tot i (chunk # rest) docs =
     chunk_loop md tot (Suc i) rest
       (docs @ [\<lparr>content = chunk,
                 metadata = dict_set ''total_chunks'' (PyInt (int tot))
                              (dict_set ''chunk_id'' (PyInt (int i)) md)\<rparr>])"

text \<open>
  \<open>chunk_text\<close>. The splitter is langchain's \<open>RecursiveCharacterTextSplitter\<close>, a library
  outside the repository: \<open>split_text\<close> is its \<open>split_text\<close> method, which returns the
  chunks or raises. Any exception makes \<open>chunk_text\<close> return the empty list.
\<close>

definition chunk_text :: "(string \<Rightarrow> exn + string list) \<Rightarrow> string \<Rightarrow> dict \<Rightarrow> document list" where
  "chunk_text split_text text md =
     (case split_text text of
        Inl e \<Rightarrow> []
      | Inr chunks \<Rightarrow> chunk_loop md (length chunks) 0 chunks [])"

section \<open>The parsed document (BeautifulSoup)\<close>

text \<open>
  BeautifulSoup is a library outside the repository. Its parser is a parameter
  (\<open>parser\<close>, the call \<open>BeautifulSoup(markup, 'html.parser')\<close>, which returns the tree or
  raises), and so is \<open>Tag.get_text(separator, strip=True)\<close> (\<open>get_text\<close>). The tree itself
  and the two lookups the claims depend on are modelled: a node is a tag, with its name,
  its attribute dictionary and its children, or a string; an attribute value is a string,
  or a list of strings for a multi-valued attribute such as \<open>class\<close>.
\<close>

datatype node =
    Tag string dict "node list"
  | NavigableString string

type_synonym parser = "string \<Rightarrow> exn + node"
type_synonym get_text = "string \<Rightarrow> node \<Rightarrow> string"

text \<open>\<open>element.name\<close>, which is \<open>None\<close> on a string.\<close>

fun tag_name :: "node \<Rightarrow> string option" where
  "tag_name (Tag n a cs) = Some n"
| "tag_name (NavigableString s) = None"

fun tag_attrs :: "node \<Rightarrow> dict" where
  "tag_attrs (Tag n a cs) = a"
| "tag_attrs (NavigableString s) = []"

text \<open>\<open>tag.get(key)\<close> and \<open>tag.get(key, default)\<close>: a lookup in the attribute dictionary.\<close>

definition tag_get :: "node \<Rightarrow> string \<Rightarrow> py_value option" where
  "tag_get t key = dict_get (tag_attrs t) key"

definition tag_get_default :: "node \<Rightarrow> string \<Rightarrow> py_value \<Rightarrow> py_value" where
  "tag_get_default t key dflt = (case tag_get t key of None \<Rightarrow> dflt | Some v \<Rightarrow> v)"

text \<open>\<open>tag.descendants\<close>: every node below the tag, in document order.\<close>

fun descendants :: "node \<Rightarrow> node list" where
  "descendants (NavigableString s) = []"
| "descendants (Tag n a cs) = concat (map (\<lambda>c. c # descendants c) cs)"

text \<open>\<open>tag.find_all(names)\<close>: the descendant tags whose name is one of \<open>names\<close>, in
  document order; \<open>tag.find(name)\<close>: the first of them, or \<open>None\<close>.\<close>

definition find_all :: "string list \<Rightarrow> node \<Rightarrow> node list" where
  "find_all names t =
     filter (\<lambda>d. case tag_name d of None \<Rightarrow> False | Some n \<Rightarrow> n \<in> set names) (descendants t)"

definition find_first :: "string \<Rightarrow> node \<Rightarrow> node option" where
  "find_first nm t = (case find_all [nm] t of [] \<Rightarrow> None | d # ds \<Rightarrow> Some d)"

section \<open>HTML structure extraction (selenium\_generator.py)\<close>

record html_structure =
  forms :: "dict list"
  buttons :: "dict list"
  inputs :: "dict list"
  selects :: "dict list"
  links :: "dict list"

definition form_descriptor :: "node \<Rightarrow> dict" where
  "form_descriptor form =
     [(''id'', tag_get_default form ''id'' (PyStr '''')),
      (''name'', tag_get_default form ''name'' (PyStr '''')),
      (''class'', tag_get_default form ''class'' (PyList [])),
      (''action'', tag_get_default form ''action'' (PyStr ''''))]"

definition button_descriptor :: "get_text \<Rightarrow> node \<Rightarrow> dict" where
  "button_descriptor get_text button =
     [(''id'', tag_get_default button ''id'' (PyStr '''')),
      (''name'', tag_get_default button ''name'' (PyStr '''')),
      (''class'', tag_get_default button ''class'' (PyList [])),
      (''text'', if tag_name button = Some ''button'' then PyStr (get_text '''' button)
                else tag_get_default button ''value'' (PyStr '''')),
      (''type'', tag_get_default button ''type'' (PyStr ''''))]"

definition input_descriptor :: "node \<Rightarrow> dict" where
  "input_descriptor inp =
     [(''id'', tag_get_default inp ''id'' (PyStr '''')),
      (''name'', tag_get_default inp ''name'' (PyStr '''')),
      (''class'', tag_get_default inp ''class'' (PyList [])),
      (''type'', tag_get_default inp ''type'' (PyStr ''text'')),
      (''placeholder'', tag_get_default inp ''placeholder'' (PyStr ''''))]"

definition select_descriptor :: "get_text \<Rightarrow> node \<Rightarrow> dict" where
  "select_descriptor get_text select =
     (let options = map (\<lambda>opt. PyStr (get_text '''' opt)) (find_all [''option''] select) in
      [(''id'', tag_get_default select ''id'' (PyStr '''')),
       (''name'', tag_get_default select ''name'' (PyStr '''')),
       (''class'', tag_get_default select ''class'' (PyList [])),
       (''options'', PyList options)])"

definition link_descriptor :: "get_text \<Rightarrow> node \<Rightarrow> dict" where
  "link_descriptor get_text link =
     [(''id'', tag_get_default link ''id'' (PyStr '''')),
      (''class'', tag_get_default link ''class'' (PyList [])),
      (''text'', PyStr (get_text '''' link)),
      (''href'', tag_get_default link ''href'' (PyStr ''''))]"

text \<open>
  The loop over \<open>soup.find_all(['button', 'input'])\<close>, with its \<open>continue\<close>:
  \<open>button.get('type') not in ['button', 'submit']\<close> compares the attribute value, or
  \<open>None\<close>, with the two strings.
\<close>

fun buttons_loop :: "get_text \<Rightarrow> node list \<Rightarrow> dict list \<Rightarrow> dict list" where
  "buttons_loop get_text [] acc = acc"
| "buttons_loop get_text (button # rest) acc =
     (if tag_name button = Some ''input''
         \<and> tag_get button ''type'' \<notin> set [Some (PyStr ''button''), Some (PyStr ''submit'')]
      then buttons_loop get_text rest acc
      else buttons_loop get_text rest (acc @ [button_descriptor get_text button]))"

text \<open>
  \<open>extract_html_structure\<close>. The result \<open>None\<close> is the empty dictionary \<open>{}\<close> of the
  \<open>except\<close> branch, which has none of the five keys.
\<close>

definition extract_html_structure :: "parser \<Rightarrow> get_text \<Rightarrow> string \<Rightarrow> html_structure option" where
  "extract_html_structure parser get_text html_content =
     (case parser html_content of
        Inl e \<Rightarrow> None
      | Inr soup \<Rightarrow>
          Some \<lparr>forms = map form_descriptor (find_all [''form''] soup),
                buttons = buttons_loop get_text (find_all [''button'', ''input''] soup) [],
                inputs = map input_descriptor (find_all [''input''] soup),
                selects = map (select_descriptor get_text) (find_all [''select''] soup),
                links = map (link_descriptor get_text) (find_all [''a''] soup)\<rparr>)"

section \<open>Text extraction from an HTML file (document\_processor.py)\<close>

text \<open>\<open>sep.join(parts)\<close>.\<close>

fun join :: "string \<Rightarrow> string list \<Rightarrow> string" where
  "join sep [] = []"
| "join sep [x] = x"
| "join sep (x # y # ys) = x @ sep @ join sep (y # ys)"

definition newline :: string where
  "newline = [CHR 0x0A]"

text \<open>
  The method \<open>_extract_html\<close>. \<open>read_file\<close> is \<open>open(file_path, 'r', encoding='utf-8')\<close>
  followed by \<open>read()\<close>: the content, or the exception raised. Every exception is logged
  and raised again, so it is the result \<open>Inl\<close>.
\<close>

definition extract_html ::
  "(string \<Rightarrow> exn + string) \<Rightarrow> parser \<Rightarrow> get_text \<Rightarrow> string \<Rightarrow> exn + string" where
  "extract_html read_file parser get_text file_path =
     (case read_file file_path of
        Inl e \<Rightarrow> Inl e
      | Inr html_content \<Rightarrow>
          (case parser html_content of
             Inl e \<Rightarrow> Inl e
           | Inr soup \<Rightarrow>
               let text_parts = [];
                   text_parts = (case find_first ''title'' soup of
                                   None \<Rightarrow> text_parts
                                 | Some title \<Rightarrow> text_parts @ [''Title: '' @ get_text '''' title]);
                   text_parts = text_parts @ [newline @ ''Content:''];
                   text_parts = text_parts @ [get_text newline soup];
                   text_parts = text_parts @ [newline @ ''--- HTML Structure ---''];
                   text_parts = text_parts @ [html_content]
               in Inr (join newline text_parts)))"

section \<open>The specification's words, for comparison with the code\<close>

text \<open>
  The specification's button test: a \<open>button\<close> element, or an \<open>input\<close> element whose
  \<open>type\<close> is \<open>button\<close> or \<open>submit\<close>.
\<close>

definition spec_is_button :: "node \<Rightarrow> bool" where
  "spec_is_button t =
     (tag_name t = Some ''button''
      \<or> (tag_name t = Some ''input''
          \<and> (tag_get t ''type'' = Some (PyStr ''button'')
              \<or> tag_get t ''type'' = Some (PyStr ''submit''))))"

text \<open>The specification's default of an absent attribute: the empty list for \<open>class\<close>,
  the empty string for every other attribute.\<close>

definition spec_default :: "string \<Rightarrow> py_value" where
  "spec_default key = (if key = ''class'' then PyList [] else PyStr '''')"

section \<open>The vector store client (vector\_store.py)\<close>

text \<open>
  Qdrant and the embedding model are outside the repository. The client's methods are
  parameters: each takes the state of the server and returns the state after the call
  together with its result or the exception it raised, so a call may fail, and may change
  the server, in any way. The model keeps, beside the server state, the list of the client
  calls the program has made, in order.
\<close>

record point =
  point_id :: string
  point_vector :: "real list"
  point_payload :: dict

record scored_point =
  sp_payload :: py_value
  sp_score :: real

text \<open>\<open>Filter(must=conditions)\<close>: the list of its conditions, each a key and the value to
  match.\<close>

type_synonym qfilter = "(string \<times> py_value) list"

datatype call =
    GetCollections
  | DeleteCollection string
  | CreateCollection string nat
  | Upsert string "point list"
  | Search string "real list" int "qfilter option"

record 'st qdrant_client =
  get_collections_op :: "'st \<Rightarrow> (exn + string list) \<times> 'st"
  delete_collection_op :: "string \<Rightarrow> 'st \<Rightarrow> (exn + unit) \<times> 'st"
  create_collection_op :: "string \<Rightarrow> nat \<Rightarrow> 'st \<Rightarrow> (exn + unit) \<times> 'st"
  upsert_op :: "string \<Rightarrow> point list \<Rightarrow> 'st \<Rightarrow> (exn + unit) \<times> 'st"
  search_op :: "string \<Rightarrow> real list \<Rightarrow> int \<Rightarrow> qfilter option \<Rightarrow> 'st \<Rightarrow> (exn + scored_point list) \<times> 'st"
  field_condition :: "string \<Rightarrow> py_value \<Rightarrow> exn + (string \<times> py_value)"

record 'st world =
  server :: 'st
  calls :: "call list"

text \<open>\<open>self.client.get_collections().collections\<close>, as the names of the collections.\<close>

definition client_get_collections ::
  "'st qdrant_client \<Rightarrow> 'st world \<Rightarrow> (exn + string list) \<times> 'st world" where
  "client_get_collections c w =
     (case get_collections_op c (server w) of
        (r, s) \<Rightarrow> (r, \<lparr>server = s, calls = calls w @ [GetCollections]\<rparr>))"

definition client_delete_collection ::
  "'st qdrant_client \<Rightarrow> string \<Rightarrow> 'st world \<Rightarrow> (exn + unit) \<times> 'st world" where
  "client_delete_collection c nm w =
     (case delete_collection_op c nm (server w) of
        (r, s) \<Rightarrow> (r, \<lparr>server = s, calls = calls w @ [DeleteCollection nm]\<rparr>))"

definition client_create_collection ::
  "'st qdrant_client \<Rightarrow> string \<Rightarrow> nat \<Rightarrow> 'st world \<Rightarrow> (exn + unit) \<times> 'st world" where
  "client_create_collection c nm vector_size w =
     (case create_collection_op c nm vector_size (server w) of
        (r, s) \<Rightarrow> (r, \<lparr>server = s, calls = calls w @ [CreateCollection nm vector_size]\<rparr>))"

definition client_upsert ::
  "'st qdrant_client \<Rightarrow> string \<Rightarrow> point list \<Rightarrow> 'st world \<Rightarrow> (exn + unit) \<times> 'st world" where
  "client_upsert c nm pts w =
     (case upsert_op c nm pts (server w) of
        (r, s) \<Rightarrow> (r, \<lparr>server = s, calls = calls w @ [Upsert nm pts]\<rparr>))"

definition client_search ::
  "'st qdrant_client \<Rightarrow> string \<Rightarrow> real list \<Rightarrow> int \<Rightarrow> qfilter option \<Rightarrow> 'st world
     \<Rightarrow> (exn + scored_point list) \<times> 'st world" where
  "client_search c nm query_vector limit query_filter w =
     (case search_op c nm query_vector limit query_filter (server w) of
        (r, s) \<Rightarrow> (r, \<lparr>server = s, calls = calls w @ [Search nm query_vector limit query_filter]\<rparr>))"

text \<open>\<open>self.embedding_model.encode(texts)\<close>: one vector for each text, or an exception.\<close>

type_synonym encoder = "string list \<Rightarrow> exn + real list list"

subsection \<open>\<open>create_collection\<close>\<close>

text \<open>
  The result is the returned boolean and the world after the call. Every exception of
  the \<open>try\<close> block ends in \<open>return False\<close>; \<open>test_embedding[0]\<close> raises \<open>IndexError\<close>
  on an empty result.
\<close>

definition create_collection ::
  "'st qdrant_client \<Rightarrow> encoder \<Rightarrow> string \<Rightarrow> bool \<Rightarrow> 'st world \<Rightarrow> bool \<times> 'st world" where
  "create_collection c encode collection_name force_recreate w0 =
     (case client_get_collections c w0 of
        (Inl e, w1) \<Rightarrow> (False, w1)
      | (Inr collections, w1) \<Rightarrow>
          let collection_exists = (collection_name \<in> set collections) in
          (case (if collection_exists \<and> force_recreate
                 then (case client_delete_collection c collection_name w1 of
                         (Inl e, w2) \<Rightarrow> (Inl e, w2)
                       | (Inr u, w2) \<Rightarrow> (Inr False, w2))
                 else (Inr collection_exists, w1)) of
             (Inl e, w2) \<Rightarrow> (False, w2)
           | (Inr collection_exists, w2) \<Rightarrow>
               if \<not> collection_exists then
                 (case encode [''test''] of
                    Inl e \<Rightarrow> (False, w2)
                  | Inr test_embedding \<Rightarrow>
                      (case test_embedding of
                         [] \<Rightarrow> (False, w2)
                       | v # vs \<Rightarrow>
                           (case client_create_collection c collection_name (length v) w2 of
                              (Inl e, w3) \<Rightarrow> (False, w3)
                            | (Inr u, w3) \<Rightarrow> (True, w3))))
               else (True, w2)))"

subsection \<open>\<open>add_documents\<close>\<close>

definition generate_embeddings :: "encoder \<Rightarrow> string list \<Rightarrow> real list list" where
  "generate_embeddings encode texts = (case encode texts of Inl e \<Rightarrow> [] | Inr embeddings \<Rightarrow> embeddings)"

text \<open>
  The loop \<open>for i, (doc, embedding) in enumerate(zip(documents, embeddings))\<close>. The
  identifiers \<open>str(uuid.uuid4())\<close> are random; \<open>uuid4 i\<close> is the one drawn for point \<open>i\<close>.
\<close>

fun make_points :: "(nat \<Rightarrow> string) \<Rightarrow> nat \<Rightarrow> (document \<times> real list) list \<Rightarrow> point list" where
  "make_points uuid4 i [] = []"
| "make_points uuid4 i ((doc, embedding) # rest) =
     \<lparr>point_id = uuid4 i, point_vector = embedding,
      point_payload = [(''content'', PyStr (content doc)), (''metadata'', PyDict (metadata doc))]\<rparr>
     # make_points uuid4 (Suc i) rest"

definition batch_size :: nat where
  "batch_size = 100"

text \<open>The loop \<open>for i in range(0, len(points), batch_size)\<close> with the slice
  \<open>points[i:i + batch_size]\<close>; an exception of \<open>upsert\<close> leaves the loop.\<close>

function upload_batches ::
  "'st qdrant_client \<Rightarrow> string \<Rightarrow> point list \<Rightarrow> nat \<Rightarrow> 'st world \<Rightarrow> (exn + unit) \<times> 'st world" where
  "upload_batches c nm points i w =
     (if i < length points then
        (case client_upsert c nm (take batch_size (drop i points)) w of
           (Inl e, w') \<Rightarrow> (Inl e, w')
         | (Inr u, w') \<Rightarrow> upload_batches c nm points (i + batch_size) w')
      else (Inr (), w))"
  by pat_completeness auto
termination
  by (relation "measure (\<lambda>(c, nm, points, i, w). length points - i)")
     (auto simp: batch_size_def)

declare upload_batches.simps [simp del]

definition add_documents ::
  "'st qdrant_client \<Rightarrow> encoder \<Rightarrow> (nat \<Rightarrow> string) \<Rightarrow> string \<Rightarrow> document list \<Rightarrow> 'st world
     \<Rightarrow> bool \<times> 'st world" where
  "add_documents c encode uuid4 collection_name documents w =
     (if documents = [] then (False, w)
      else
        let texts = map content documents;
            embeddings = generate_embeddings encode texts
        in if embeddings = [] then (False, w)
           else
             let points = make_points uuid4 0 (zip documents embeddings) in
             (case upload_batches c collection_name points 0 w of
                (Inl e, w') \<Rightarrow> (False, w')
              | (Inr u, w') \<Rightarrow> (True, w')))"

subsection \<open>\<open>search\<close>\<close>

text \<open>\<open>value[key]\<close> with a string key.\<close>

fun py_getitem :: "py_value \<Rightarrow> string \<Rightarrow> exn + py_value" where
  "py_getitem (PyDict d) key = (case map_of d key of None \<Rightarrow> Inl (KeyError key) | Some v \<Rightarrow> Inr v)"
| "py_getitem (PyStr s) key = Inl (TypeError ''string indices must be integers'')"
| "py_getitem (PyList xs) key = Inl (TypeError ''list indices must be integers or slices, not str'')"
| "py_getitem v key =
     Inl (TypeError ([CHR 0x27] @ type_name v @ [CHR 0x27] @ '' object is not subscriptable''))"

text \<open>The truth value of \<open>filter_dict\<close>: \<open>None\<close> and the empty dictionary are false.\<close>

definition has_filter :: "dict option \<Rightarrow> bool" where
  "has_filter filter_dict = (case filter_dict of None \<Rightarrow> False | Some d \<Rightarrow> d \<noteq> [])"

text \<open>The loop over \<open>filter_dict.items()\<close> building the conditions. The constructors
  \<open>FieldCondition\<close> and \<open>MatchValue\<close> validate their arguments and may raise.\<close>

fun build_conditions ::
  "'st qdrant_client \<Rightarrow> (string \<times> py_value) list \<Rightarrow> qfilter \<Rightarrow> exn + qfilter" where
  "build_conditions c [] conditions = Inr conditions"
| "build_conditions c ((key, v) # rest) conditions =
     (case field_condition c (''metadata.'' @ key) v of
        Inl e \<Rightarrow> Inl e
      | Inr cond \<Rightarrow> build_conditions c rest (conditions @ [cond]))"

text \<open>The value of \<open>search_filter\<close> before the search: an exception while the filter is
  built is logged and leaves it \<open>None\<close>.\<close>

definition build_filter :: "'st qdrant_client \<Rightarrow> dict option \<Rightarrow> qfilter option" where
  "build_filter c filter_dict =
     (case filter_dict of
        None \<Rightarrow> None
      | Some d \<Rightarrow>
          if d \<noteq> [] then
            (case build_conditions c d [] of
               Inl e \<Rightarrow> None
             | Inr conditions \<Rightarrow> if conditions \<noteq> [] then Some conditions else None)
          else None)"

text \<open>The loop formatting the results.\<close>

fun format_results :: "scored_point list \<Rightarrow> dict list \<Rightarrow> exn + dict list" where
  "format_results [] formatted = Inr formatted"
| "format_results (r # rs) formatted =
     (case py_getitem (sp_payload r) ''content'' of
        Inl e \<Rightarrow> Inl e
      | Inr cont \<Rightarrow>
          (case py_getitem (sp_payload r) ''metadata'' of
             Inl e \<Rightarrow> Inl e
           | Inr md \<Rightarrow>
               format_results rs
                 (formatted @ [[(''content'', cont), (''metadata'', md), (''score'', PyFloat (sp_score r))]])))"

text \<open>The \<open>try\<close> block of \<open>search\<close>: \<open>Inl\<close> is the exception that reaches the
  \<open>except\<close> clause.\<close>

definition search_body ::
  "'st qdrant_client \<Rightarrow> encoder \<Rightarrow> string \<Rightarrow> string \<Rightarrow> int \<Rightarrow> dict option \<Rightarrow> 'st world
     \<Rightarrow> (exn + dict list) \<times> 'st world" where
  "search_body c encode collection_name query top_k filter_dict w =
     (case encode [query] of
        Inl e \<Rightarrow> (Inl e, w)
      | Inr [] \<Rightarrow> (Inl (IndexError ''index 0 is out of bounds for axis 0 with size 0''), w)
      | Inr (query_embedding # vs) \<Rightarrow>
          let search_filter = build_filter c filter_dict in
          (case client_search c collection_name query_embedding top_k search_filter w of
             (Inl e, w') \<Rightarrow> (Inl e, w')
           | (Inr results, w') \<Rightarrow>
               (case format_results results [] of
                  Inl e \<Rightarrow> (Inl e, w')
                | Inr formatted_results \<Rightarrow> (Inr formatted_results, w'))))"

function search ::
  "'st qdrant_client \<Rightarrow> encoder \<Rightarrow> string \<Rightarrow> string \<Rightarrow> int \<Rightarrow> dict option \<Rightarrow> 'st world
     \<Rightarrow> dict list \<times> 'st world" where
  "search c encode collection_name query top_k filter_dict w =
     (case search_body c encode collection_name query top_k filter_dict w of
        (Inr formatted_results, w') \<Rightarrow> (formatted_results, w')
      | (Inl e, w') \<Rightarrow>
          if has_filter filter_dict
          then search c encode collection_name query top_k None w'
          else ([], w'))"
  by pat_completeness auto
termination
  by (relation "measure (\<lambda>(c, encode, collection_name, query, top_k, filter_dict, w).
                            if has_filter filter_dict then 1 else 0)")
     (auto simp: has_filter_def)

declare search.simps [simp del]

subsection \<open>Writing a sequence of batches\<close>

text \<open>
  \<open>batch points j\<close> is the slice \<open>points[j * batch_size : (j + 1) * batch_size]\<close>, and
  \<open>write_batches c nm bs w\<close> is the world after the batches \<open>bs\<close> have been upserted one
  after the other from \<open>w\<close>, when every one of these calls succeeds. They state what
  "the batches written before the failing one" are.
\<close>

definition batch :: "point list \<Rightarrow> nat \<Rightarrow> point list" where
  "batch points j = take batch_size (drop (j * batch_size) points)"

fun write_batches ::
  "'st qdrant_client \<Rightarrow> string \<Rightarrow> point list list \<Rightarrow> 'st world \<Rightarrow> 'st world option" where
  "write_batches c nm [] w = Some w"
| "write_batches c nm (b # bs) w =
     (case client_upsert c nm b w of
        (Inl e, w') \<Rightarrow> None
      | (Inr u, w') \<Rightarrow> write_batches c nm bs w')"

subsection \<open>\<open>get_collection_info\<close>\<close>

record settings =
  QDRANT_URL :: string
  QDRANT_API_KEY :: string
  QDRANT_HOST :: string
  QDRANT_PORT :: int

text \<open>\<open>str(n)\<close> for an integer, \<open>s.rstrip('/')\<close> and \<open>s.replace('::', ':')\<close>.\<close>

fun nat_digits :: "nat \<Rightarrow> string" where
  "nat_digits n =
     (if n < 10 then [char_of (48 + n)]
      else nat_digits (n div 10) @ [char_of (48 + n mod 10)])"

declare nat_digits.simps [simp del]

definition int_str :: "int \<Rightarrow> string" where
  "int_str i = (if i < 0 then ''-'' @ nat_digits (nat (- i)) else nat_digits (nat i))"

definition rstrip_slash :: "string \<Rightarrow> string" where
  "rstrip_slash s = rev (dropWhile (\<lambda>ch. ch = CHR ''/'') (rev s))"

fun replace_double_colon :: "string \<Rightarrow> string" where
  "replace_double_colon (a # b # cs) =
     (if a = CHR '':'' \<and> b = CHR '':'' then CHR '':'' # replace_double_colon cs
      else a # replace_double_colon (b # cs))"
| "replace_double_colon cs = cs"

text \<open>
  The response of \<open>requests.get\<close>: its status code and what \<open>response.json()\<close> gives,
  the decoded document or the exception of the decoder. \<open>requests_get url headers\<close> is
  the call itself, which returns a response or raises; \<open>headers\<close> is \<open>None\<close> when the
  call passes none.
\<close>

record response =
  status_code :: int
  json :: "exn + py_value"

type_synonym requests_get = "string \<Rightarrow> (string \<times> string) list option \<Rightarrow> exn + response"

text \<open>\<open>value.get(key, default)\<close>: only a dictionary has the method.\<close>

fun py_get :: "py_value \<Rightarrow> string \<Rightarrow> py_value \<Rightarrow> exn + py_value" where
  "py_get (PyDict d) key dflt = Inr (case map_of d key of None \<Rightarrow> dflt | Some v \<Rightarrow> v)"
| "py_get v key dflt =
     Inl (AttributeError ([CHR 0x27] @ type_name v @ [CHR 0x27] @ '' object has no attribute ''
                          @ [CHR 0x27] @ ''get'' @ [CHR 0x27]))"

definition collection_url :: "settings \<Rightarrow> string \<Rightarrow> string" where
  "collection_url cfg collection_name =
     (if QDRANT_URL cfg \<noteq> [] \<and> QDRANT_API_KEY cfg \<noteq> []
      then replace_double_colon
             (rstrip_slash (QDRANT_URL cfg) @ '':''
              @ (if CHR '':'' \<notin> set (QDRANT_URL cfg) then int_str (QDRANT_PORT cfg) else '''')
              @ ''/collections/'' @ collection_name)
      else ''http://'' @ QDRANT_HOST cfg @ '':'' @ int_str (QDRANT_PORT cfg)
           @ ''/collections/'' @ collection_name)"

definition request_headers :: "settings \<Rightarrow> (string \<times> string) list option" where
  "request_headers cfg =
     (if QDRANT_URL cfg \<noteq> [] \<and> QDRANT_API_KEY cfg \<noteq> []
      then Some [(''api-key'', QDRANT_API_KEY cfg)]
      else None)"

text \<open>The \<open>try\<close> block of \<open>get_collection_info\<close>.\<close>

definition get_collection_info_body :: "settings \<Rightarrow> requests_get \<Rightarrow> string \<Rightarrow> exn + dict" where
  "get_collection_info_body cfg requests_get collection_name =
     (case requests_get (collection_url cfg collection_name) (request_headers cfg) of
        Inl e \<Rightarrow> Inl e
      | Inr response \<Rightarrow>
          if status_code response = 200 then
            (case json response of
               Inl e \<Rightarrow> Inl e
             | Inr data \<Rightarrow>
                 (case py_get data ''result'' (PyDict []) of
                    Inl e \<Rightarrow> Inl e
                  | Inr result \<Rightarrow>
                      (case py_get result ''points_count'' (PyInt 0) of
                         Inl e \<Rightarrow> Inl e
                       | Inr points_count \<Rightarrow>
                           (case py_get result ''vectors_count'' (PyInt 0) of
                              Inl e \<Rightarrow> Inl e
                            | Inr vectors_count \<Rightarrow>
                                (case py_get result ''status'' (PyStr ''unknown'') of
                                   Inl e \<Rightarrow> Inl e
                                 | Inr status \<Rightarrow>
                                     Inr [(''name'', PyStr collection_name),
                                          (''points_count'', points_count),
                                          (''vectors_count'', vectors_count),
                                          (''status'', status)])))))
          else Inr [(''name'', PyStr collection_name), (''points_count'', PyInt 0)])"

definition get_collection_info :: "settings \<Rightarrow> requests_get \<Rightarrow> string \<Rightarrow> dict" where
  "get_collection_info cfg requests_get collection_name =
     (case get_collection_info_body cfg requests_get collection_name of
        Inr info \<Rightarrow> info
      | Inl e \<Rightarrow>
          [(''name'', PyStr collection_name), (''points_count'', PyInt 0),
           (''vectors_count'', PyInt 0), (''status'', PyStr ''unknown'')])"

section \<open>Stand-ins for the library parameters, used at concrete inputs\<close>

text \<open>A splitter that returns given chunks, a parser that returns a given tree, a file reader that returns a given content, and
  a text extraction that joins the strings below a node without stripping them.\<close>

definition fixed_split :: "string list \<Rightarrow> string \<Rightarrow> exn + string list" where
  "fixed_split chunks text = Inr chunks"

definition fixed_parser :: "node \<Rightarrow> parser" where
  "fixed_parser soup markup = Inr soup"

definition fixed_file :: "string \<Rightarrow> string \<Rightarrow> exn + string" where
  "fixed_file file_content file_path = Inr file_content"

fun node_strings :: "node \<Rightarrow> string list" where
  "node_strings (NavigableString s) = [s]"
| "node_strings (Tag n a cs) = []"

definition plain_text :: get_text where
  "plain_text sep t = join sep (concat (map node_strings (descendants t)))"

text \<open>The page of the specification's example: one form holding a button, a text input, a
  submit input, a select with two options and a link.\<close>

definition sample_page :: node where
  "sample_page = Tag ''[document]'' []
     [Tag ''title'' [] [NavigableString ''Shop''],
      Tag ''form'' [(''id'', PyStr ''f''), (''class'', PyList [PyStr ''wide''])]
        [Tag ''button'' [] [NavigableString ''Go''],
         Tag ''input'' [(''type'', PyStr ''text''), (''name'', PyStr ''q'')] [],
         Tag ''input'' [(''type'', PyStr ''submit''), (''value'', PyStr ''Send'')] [],
         Tag ''select'' []
           [Tag ''option'' [] [NavigableString ''a''], Tag ''option'' [] [NavigableString ''b'']],
         Tag ''a'' [(''href'', PyStr ''/x'')] [NavigableString ''x'']]]"

text \<open>A document with one \<open>input\<close> element that has no attribute.\<close>

definition bare_input_page :: node where
  "bare_input_page = Tag ''[document]'' [] [Tag ''input'' [] []]"

text \<open>
  An in-memory server: the collections with their points, the number of calls received,
  and the numbers of the calls that are to fail. It rejects a search with a filter, as a
  server without a payload index does.
\<close>

record mem =
  mem_collections :: "(string \<times> point list) list"
  mem_received :: nat
  mem_failing :: "nat list"

definition mem_call :: "(mem \<Rightarrow> (exn + 'a) \<times> mem) \<Rightarrow> mem \<Rightarrow> (exn + 'a) \<times> mem" where
  "mem_call f s =
     (let s' = s\<lparr>mem_received := Suc (mem_received s)\<rparr> in
      if mem_received s \<in> set (mem_failing s)
      then (Inl (OtherError ''connection refused''), s')
      else f s')"

definition mem_client :: "mem qdrant_client" where
  "mem_client =
     \<lparr>get_collections_op = mem_call (\<lambda>s. (Inr (map fst (mem_collections s)), s)),
      delete_collection_op = (\<lambda>nm. mem_call (\<lambda>s.
         (Inr (), s\<lparr>mem_collections := filter (\<lambda>(n, ps). n \<noteq> nm) (mem_collections s)\<rparr>))),
      create_collection_op = (\<lambda>nm vector_size. mem_call (\<lambda>s.
         if nm \<in> fst ` set (mem_collections s)
         then (Inl (OtherError ''collection already exists''), s)
         else (Inr (), s\<lparr>mem_collections := mem_collections s @ [(nm, [])]\<rparr>))),
      upsert_op = (\<lambda>nm pts. mem_call (\<lambda>s.
         if nm \<in> fst ` set (mem_collections s)
         then (Inr (), s\<lparr>mem_collections :=
                 map (\<lambda>(n, ps). if n = nm then (n, ps @ pts) else (n, ps)) (mem_collections s)\<rparr>)
         else (Inl (OtherError ''collection not found''), s))),
      search_op = (\<lambda>nm query_vector limit query_filter. mem_call (\<lambda>s.
         case query_filter of
           Some f \<Rightarrow> (Inl (OtherError ''index required but not found''), s)
         | None \<Rightarrow>
             (case map_of (mem_collections s) nm of
                None \<Rightarrow> (Inl (OtherError ''collection not found''), s)
              | Some ps \<Rightarrow>
                  (Inr (map (\<lambda>p. \<lparr>sp_payload = PyDict (point_payload p), sp_score = 1\<rparr>)
                          (take (nat limit) ps)), s)))),
      field_condition = (\<lambda>key v. Inr (key, v))\<rparr>"

text \<open>An encoder that gives every text the same two-dimensional vector, and identifiers
  numbered by their position.\<close>

definition flat_encoder :: encoder where
  "flat_encoder texts = Inr (map (\<lambda>t. [0, 1]) texts)"

definition numbered_uuid :: "nat \<Rightarrow> string" where
  "numbered_uuid i = replicate i (CHR ''x'')"

text \<open>250 documents, their points, and a server with an empty collection whose second
  call fails.\<close>

definition many_documents :: "document list" where
  "many_documents = replicate 250 \<lparr>content = ''text'', metadata = []\<rparr>"

definition many_points :: "point list" where
  "many_points = make_points numbered_uuid 0 (zip many_documents (replicate 250 [0, 1]))"

definition failing_second :: "mem world" where
  "failing_second =
     \<lparr>server = \<lparr>mem_collections = [(''docs'', [])], mem_received = 0, mem_failing = [1]\<rparr>,
      calls = []\<rparr>"

text \<open>A server whose collection holds one point and where no call fails.\<close>

definition one_point :: point where
  "one_point =
     \<lparr>point_id = ''p'', point_vector = [0, 1],
      point_payload = [(''content'', PyStr ''hello''), (''metadata'', PyDict [])]\<rparr>"

definition one_point_store :: "mem world" where
  "one_point_store =
     \<lparr>server = \<lparr>mem_collections = [(''docs'', [one_point])], mem_received = 0, mem_failing = []\<rparr>,
      calls = []\<rparr>"

text \<open>The same server when its next two calls fail.\<close>

definition unreachable_store :: "mem world" where
  "unreachable_store =
     \<lparr>server = \<lparr>mem_collections = [(''docs'', [one_point])], mem_received = 0,
                 mem_failing = [0, 1]\<rparr>,
      calls = []\<rparr>"

text \<open>The default local configuration, and a transport that answers every request with
  a given status code and an empty JSON object.\<close>

definition local_settings :: settings where
  "local_settings =
     \<lparr>QDRANT_URL = '''', QDRANT_API_KEY = '''', QDRANT_HOST = ''localhost'', QDRANT_PORT = 6333\<rparr>"

definition answer_with :: "int \<Rightarrow> requests_get" where
  "answer_with code url headers = Inr \<lparr>status_code = code, json = Inr (PyDict [])\<rparr>"

text \<open>A server with an empty collection where no call fails.\<close>

definition empty_store :: "mem world" where
  "empty_store =
     \<lparr>server = \<lparr>mem_collections = [(''docs'', [])], mem_received = 0, mem_failing = []\<rparr>,
      calls = []\<rparr>"

section \<open>Properties of script validation\<close>

text \<open>The two string tests mean what Python's \<open>startswith\<close> and \<open>in\<close> mean.\<close>

lemma startswith_iff: "startswith s p \<longleftrightarrow> (\<exists>r. s = p @ r)"
  by (induction s p rule: startswith.induct) auto

lemma str_contains_iff: "str_contains needle hay \<longleftrightarrow> (\<exists>pre post. hay = pre @ needle @ post)"
proof (induction hay)
  case Nil
  then show ?case by auto
next
  case (Cons c cs)
  show ?case
  proof
    assume "str_contains needle (c # cs)"
    then consider "startswith (c # cs) needle" | "str_contains needle cs" by auto
    then show "\<exists>pre post. c # cs = pre @ needle @ post"
    proof cases
      case 1
      then obtain r where "c # cs = needle @ r" by (auto simp: startswith_iff)
      then have "c # cs = [] @ needle @ r" by simp
      then show ?thesis by blast
    next
      case 2
      then obtain pre post where "cs = pre @ needle @ post" using Cons.IH by blast
      then have "c # cs = (c # pre) @ needle @ post" by simp
      then show ?thesis by blast
    qed
  next
    assume "\<exists>pre post. c # cs = pre @ needle @ post"
    then obtain pre post where e: "c # cs = pre @ needle @ post" by blast
    show "str_contains needle (c # cs)"
    proof (cases pre)
      case Nil
      then have "startswith (c # cs) needle" using e by (auto simp: startswith_iff)
      then show ?thesis by simp
    next
      case (Cons p ps)
      then have "cs = ps @ needle @ post" using e by simp
      then have "str_contains needle cs" using Cons.IH by blast
      then show ?thesis by simp
    qed
  qed
qed

lemma check_imports_str: "\<exists>ws'. check_imports imps (PyStr s) ws = Inr ws'"
  by (induction imps arbitrary: ws) auto

lemma any_method_str: "any_method ms (PyStr s) = Inr (\<exists>m \<in> set ms. str_contains m s)"
  by (induction ms) auto

lemma missing_error_handling_str:
  "missing_error_handling (PyStr s) = Inr (\<not> str_contains ''try:'' s \<or> \<not> str_contains ''except'' s)"
  by (simp add: missing_error_handling_def)

lemma validate_script_body_errors:
  "validate_script_body v = Inr r \<Longrightarrow> valid r = (errors r = [])"
  by (auto simp: validate_script_body_def Let_def split: sum.splits if_splits)

text \<open>
  Claim C1. For every script string, the report has \<open>valid = False\<close> and at least one
  error exactly when none of \<open>find_element\<close>, \<open>click\<close>, \<open>send_keys\<close> occurs in the
  script; and a script that contains one of them but lacks \<open>try:\<close> or lacks \<open>except\<close>
  is reported valid with at least one warning, the missing-error-handling one.
\<close>

theorem validate_script_methods_and_handling:
  "((valid (validate_script (PyStr s)) = False \<and> errors (validate_script (PyStr s)) \<noteq> [])
      \<longleftrightarrow> \<not> (str_contains ''find_element'' s \<or> str_contains ''click'' s
                \<or> str_contains ''send_keys'' s))
   \<and> ((str_contains ''find_element'' s \<or> str_contains ''click'' s \<or> str_contains ''send_keys'' s)
        \<and> (\<not> str_contains ''try:'' s \<or> \<not> str_contains ''except'' s)
      \<longrightarrow> valid (validate_script (PyStr s)) = True
          \<and> (\<exists>ws. warnings (validate_script (PyStr s)) = Some ws \<and> ws \<noteq> []
                \<and> ''Missing error handling'' \<in> set ws))"
proof -
  obtain ws where w: "check_imports required_imports (PyStr s) [] = Inr ws"
    using check_imports_str by blast
  show ?thesis
    by (simp add: validate_script_def validate_script_body_def w any_method_str
        missing_error_handling_str Let_def required_methods_def)
qed

theorem validate_script_methods_and_handling_witness:
  "str_contains ''click'' ''driver.click()'' \<and> \<not> str_contains ''try:'' ''driver.click()''
   \<and> valid (validate_script (PyStr ''driver.click()'')) = True
   \<and> (\<exists>ws. warnings (validate_script (PyStr ''driver.click()'')) = Some ws \<and> ws \<noteq> [])
   \<and> valid (validate_script (PyStr ''print(1)'')) = False
   \<and> errors (validate_script (PyStr ''print(1)'')) \<noteq> []"
  using validate_script_methods_and_handling [of "''driver.click()''"] validate_script_methods_and_handling [of "''print(1)''"]
  by auto

text \<open>
  Claim C10. Every report of \<open>validate_script\<close>, from the normal path and from the
  \<open>except\<close> branch alike, has \<open>valid = False\<close> exactly when its error list is not empty.
\<close>

theorem validate_script_valid_iff_no_errors: "valid (validate_script v) = False \<longleftrightarrow> errors (validate_script v) \<noteq> []"
proof (cases "validate_script_body v")
  case (Inl e)
  then show ?thesis by (simp add: validate_script_def)
next
  case (Inr r)
  then show ?thesis using validate_script_body_errors [OF Inr] by (simp add: validate_script_def)
qed

theorem validate_script_valid_iff_no_errors_witness:
  "validate_script PyNone
     = \<lparr>valid = False, warnings = None,
        errors = [''argument of type '' @ [CHR 0x27] @ ''NoneType'' @ [CHR 0x27] @ '' is not iterable'']\<rparr>
   \<and> validate_script (PyStr ''print(1)'')
     = \<lparr>valid = False,
        warnings = Some [''Missing import: selenium'', ''Missing import: webdriver'',
                         ''Missing import: WebDriverWait'', ''Missing error handling''],
        errors = [''No Selenium methods found'']\<rparr>
   \<and> valid (validate_script (PyStr ''try: click except'')) = True
   \<and> errors (validate_script (PyStr ''try: click except'')) = []"
  using validate_script_valid_iff_no_errors [of PyNone] validate_script_valid_iff_no_errors [of "PyStr ''try: click except''"]
  by (simp add: validate_script_def validate_script_body_def required_imports_def
      required_methods_def missing_error_handling_def)

section \<open>Properties of chunking\<close>

lemma dict_get_set: "dict_get (dict_set k v d) k' = (if k' = k then Some v else dict_get d k')"
  by (induction d) (auto simp: dict_get_def)

lemma chunk_loop_append:
  "chunk_loop md tot i chunks docs = docs @ chunk_loop md tot i chunks []"
proof (induction chunks arbitrary: i docs)
  case Nil
  show ?case by simp
next
  case (Cons c cs)
  show ?case
    using Cons.IH [of "Suc i" "docs @ [x]" for x] Cons.IH [of "Suc i" "[x]" for x]
    by simp
qed

lemma chunk_loop_length: "length (chunk_loop md tot i chunks docs) = length docs + length chunks"
  by (induction chunks arbitrary: i docs) auto

lemma chunk_loop_content: "map content (chunk_loop md tot i chunks []) = chunks"
proof (induction chunks arbitrary: i)
  case Nil
  show ?case by simp
next
  case (Cons c cs)
  show ?case
    using Cons.IH [of "Suc i"] chunk_loop_append [of md tot "Suc i" cs "[x]" for x]
    by simp
qed

lemma chunk_loop_ids:
  "map (\<lambda>d. dict_get (metadata d) ''chunk_id'') (chunk_loop md tot i chunks [])
     = map (\<lambda>j. Some (PyInt (int j))) [i ..< i + length chunks]"
proof (induction chunks arbitrary: i)
  case Nil
  show ?case by simp
next
  case (Cons c cs)
  have "[i ..< i + length (c # cs)] = i # [Suc i ..< Suc i + length cs]"
    by (simp add: upt_rec)
  then show ?case
    using Cons.IH [of "Suc i"] chunk_loop_append [of md tot "Suc i" cs "[x]" for x]
    by (simp add: dict_get_set)
qed

lemma chunk_loop_total:
  "d \<in> set (chunk_loop md tot i chunks []) \<Longrightarrow>
     dict_get (metadata d) ''total_chunks'' = Some (PyInt (int tot))"
proof (induction chunks arbitrary: i)
  case Nil
  then show ?case by simp
next
  case (Cons c cs)
  then show ?case
    using chunk_loop_append [of md tot "Suc i" cs "[x]" for x]
    by (auto simp: dict_get_set)
qed

text \<open>
  Claim C2. For every text and base metadata, the \<open>chunk_id\<close> values of the returned list
  are 0, 1, ... up to its length minus one, in order, and every chunk's \<open>total_chunks\<close>
  is the length of the returned list. This holds whatever the splitter returns, also when
  the base metadata already has one of the two keys, and when the splitter raises (the
  list is then empty).
\<close>

theorem chunk_text_ids_contiguous:
  "map (\<lambda>d. dict_get (metadata d) ''chunk_id'') (chunk_text split_text text md)
     = map (\<lambda>j. Some (PyInt (int j))) [0 ..< length (chunk_text split_text text md)]
   \<and> (\<forall>d \<in> set (chunk_text split_text text md).
         dict_get (metadata d) ''total_chunks''
           = Some (PyInt (int (length (chunk_text split_text text md)))))"
proof (cases "split_text text")
  case (Inl e)
  then show ?thesis by (simp add: chunk_text_def)
next
  case (Inr chunks)
  have len: "length (chunk_text split_text text md) = length chunks"
    by (simp add: chunk_text_def Inr chunk_loop_length)
  show ?thesis
    using chunk_loop_ids [of md "length chunks" 0 chunks]
      chunk_loop_total [of _ md "length chunks" 0 chunks]
    by (simp add: len) (simp add: chunk_text_def Inr)
qed

theorem chunk_text_ids_contiguous_witness:
  "chunk_text (fixed_split [''ab'', ''cd'']) ''ab cd''
       [(''chunk_id'', PyInt 7), (''source'', PyStr ''a.txt'')]
     = [\<lparr>content = ''ab'',
          metadata = [(''chunk_id'', PyInt 0), (''source'', PyStr ''a.txt''), (''total_chunks'', PyInt 2)]\<rparr>,
        \<lparr>content = ''cd'',
          metadata = [(''chunk_id'', PyInt 1), (''source'', PyStr ''a.txt''), (''total_chunks'', PyInt 2)]\<rparr>]"
  using chunk_text_ids_contiguous [of "fixed_split [''ab'', ''cd'']" "''ab cd''"
      "[(''chunk_id'', PyInt 7), (''source'', PyStr ''a.txt'')]"]
  by (simp add: chunk_text_def fixed_split_def)

section \<open>Properties of the HTML extraction\<close>

lemma buttons_loop_filter:
  "buttons_loop gt ts acc
     = acc @ map (button_descriptor gt)
               (filter (\<lambda>t. \<not> (tag_name t = Some ''input''
                   \<and> tag_get t ''type'' \<notin> set [Some (PyStr ''button''), Some (PyStr ''submit'')])) ts)"
  by (induction ts arbitrary: acc) auto

lemma filter_find_all_buttons:
  "filter (\<lambda>t. \<not> (tag_name t = Some ''input''
                   \<and> tag_get t ''type'' \<notin> set [Some (PyStr ''button''), Some (PyStr ''submit'')]))
          (find_all [''button'', ''input''] soup)
     = filter spec_is_button (descendants soup)"
  unfolding find_all_def filter_filter
  by (rule filter_cong) (auto simp: spec_is_button_def split: option.splits)

lemma buttons_eq:
  "buttons_loop gt (find_all [''button'', ''input''] soup) []
     = map (button_descriptor gt) (filter spec_is_button (descendants soup))"
  unfolding buttons_loop_filter filter_find_all_buttons by simp

text \<open>
  Claim C3. For every markup string the parser accepts, the buttons list holds, in document
  order, the descriptors of exactly the \<open>button\<close> elements and the \<open>input\<close> elements
  whose \<open>type\<close> is \<open>button\<close> or \<open>submit\<close>; an \<open>input\<close> of another type, or without
  a \<open>type\<close>, fails \<open>spec_is_button\<close> and contributes no descriptor.
\<close>

theorem extract_html_structure_buttons:
  assumes "parser html = Inr soup"
  shows "\<exists>st. extract_html_structure parser gt html = Some st
            \<and> buttons st = map (button_descriptor gt) (filter spec_is_button (descendants soup))"
  using assms by (simp add: extract_html_structure_def buttons_eq)


theorem extract_html_structure_buttons_witness:
  "fixed_parser sample_page ''<html></html>'' = Inr sample_page
   \<and> filter spec_is_button (descendants sample_page)
       = [Tag ''button'' [] [NavigableString ''Go''],
          Tag ''input'' [(''type'', PyStr ''submit''), (''value'', PyStr ''Send'')] []]
   \<and> map_option buttons (extract_html_structure (fixed_parser sample_page) plain_text ''<html></html>'')
       = Some [[(''id'', PyStr ''''), (''name'', PyStr ''''), (''class'', PyList []),
                (''text'', PyStr ''Go''), (''type'', PyStr '''')],
               [(''id'', PyStr ''''), (''name'', PyStr ''''), (''class'', PyList []),
                (''text'', PyStr ''Send''), (''type'', PyStr ''submit'')]]"
  using extract_html_structure_buttons
    [of "fixed_parser sample_page" "''<html></html>''" sample_page plain_text]
  by (auto simp: fixed_parser_def sample_page_def spec_is_button_def tag_get_def dict_get_def
      button_descriptor_def tag_get_default_def plain_text_def)

text \<open>
  Claim C5. For every HTML file that is read and parsed, the extracted text is, in order:
  the title line (when the document has a \<open>title\<close> element), the content header and the
  text of the page, then the line \<open>--- HTML Structure ---\<close> followed by the markup as it
  was read.
\<close>

theorem extract_html_layout:
  assumes "read_file file_path = Inr html" and "parser html = Inr soup"
  shows "extract_html read_file parser gt file_path
           = Inr ((case find_first ''title'' soup of
                     None \<Rightarrow> []
                   | Some title \<Rightarrow> ''Title: '' @ gt '''' title @ newline)
                  @ newline @ ''Content:'' @ newline
                  @ gt newline soup @ newline
                  @ newline @ ''--- HTML Structure ---'' @ newline
                  @ html)"
  using assms by (simp add: extract_html_def Let_def split: option.splits)


theorem extract_html_layout_witness:
  "fixed_file ''<title>Shop</title>'' ''page.html'' = Inr ''<title>Shop</title>''
   \<and> fixed_parser sample_page ''<title>Shop</title>'' = Inr sample_page
   \<and> extract_html (fixed_file ''<title>Shop</title>'') (fixed_parser sample_page) plain_text
         ''page.html''
       = Inr (''Title: Shop'' @ newline @ newline @ ''Content:'' @ newline
              @ ''Shop'' @ newline @ ''Go'' @ newline @ ''a'' @ newline @ ''b'' @ newline @ ''x''
              @ newline @ newline @ ''--- HTML Structure ---'' @ newline
              @ ''<title>Shop</title>'')"
  using extract_html_layout
    [of "fixed_file ''<title>Shop</title>''" "''page.html''" "''<title>Shop</title>''"
        "fixed_parser sample_page" sample_page plain_text]
  by (simp add: fixed_file_def fixed_parser_def sample_page_def find_first_def find_all_def
      plain_text_def newline_def)

lemma list_all2_map_same: "list_all2 P xs (map f xs) \<longleftrightarrow> (\<forall>x \<in> set xs. P x (f x))"
  by (induction xs) auto

lemma tag_get_default_absent: "tag_get t k = None \<Longrightarrow> tag_get_default t k d = d"
  by (simp add: tag_get_default_def)

lemma form_descriptor_defaults:
  "\<forall>k \<in> set [''id'', ''name'', ''class'', ''action''].
     tag_get t k = None \<longrightarrow> dict_get (form_descriptor t) k = Some (spec_default k)"
  by (simp add: form_descriptor_def dict_get_def spec_default_def tag_get_default_absent)

lemma button_descriptor_defaults:
  "(\<forall>k \<in> set [''id'', ''name'', ''class'', ''type''].
      tag_get t k = None \<longrightarrow> dict_get (button_descriptor gt t) k = Some (spec_default k))
   \<and> (tag_name t = Some ''input'' \<and> tag_get t ''value'' = None
        \<longrightarrow> dict_get (button_descriptor gt t) ''text'' = Some (PyStr ''''))"
  by (simp add: button_descriptor_def dict_get_def spec_default_def tag_get_default_absent)

lemma input_descriptor_defaults:
  "(\<forall>k \<in> set [''id'', ''name'', ''class'', ''placeholder''].
      tag_get t k = None \<longrightarrow> dict_get (input_descriptor t) k = Some (spec_default k))
   \<and> (tag_get t ''type'' = None \<longrightarrow> dict_get (input_descriptor t) ''type'' = Some (PyStr ''text''))"
  by (simp add: input_descriptor_def dict_get_def spec_default_def tag_get_default_absent)

lemma select_descriptor_defaults:
  "\<forall>k \<in> set [''id'', ''name'', ''class''].
     tag_get t k = None \<longrightarrow> dict_get (select_descriptor gt t) k = Some (spec_default k)"
  by (simp add: select_descriptor_def dict_get_def spec_default_def tag_get_default_absent)

lemma link_descriptor_defaults:
  "\<forall>k \<in> set [''id'', ''class'', ''href''].
     tag_get t k = None \<longrightarrow> dict_get (link_descriptor gt t) k = Some (spec_default k)"
  by (simp add: link_descriptor_def dict_get_def spec_default_def tag_get_default_absent)

text \<open>
  Claim C4, as amended. For every markup string the parser accepts, extraction succeeds
  whatever attributes are absent, and in every descriptor an absent attribute reads as
  the empty string (the empty list for \<open>class\<close>), except that an absent \<open>type\<close> of an
  \<open>input\<close> reads as \<open>text\<close> in the inputs list.
\<close>

theorem extract_html_structure_defaults:
  assumes "parser html = Inr soup"
  shows "\<exists>st. extract_html_structure parser gt html = Some st
     \<and> list_all2 (\<lambda>t d. \<forall>k \<in> set [''id'', ''name'', ''class'', ''action''].
                    tag_get t k = None \<longrightarrow> dict_get d k = Some (spec_default k))
         (find_all [''form''] soup) (forms st)
     \<and> list_all2 (\<lambda>t d. (\<forall>k \<in> set [''id'', ''name'', ''class'', ''type''].
                    tag_get t k = None \<longrightarrow> dict_get d k = Some (spec_default k))
                  \<and> (tag_name t = Some ''input'' \<and> tag_get t ''value'' = None
                       \<longrightarrow> dict_get d ''text'' = Some (PyStr '''')))
         (filter spec_is_button (descendants soup)) (buttons st)
     \<and> list_all2 (\<lambda>t d. (\<forall>k \<in> set [''id'', ''name'', ''class'', ''placeholder''].
                    tag_get t k = None \<longrightarrow> dict_get d k = Some (spec_default k))
                  \<and> (tag_get t ''type'' = None \<longrightarrow> dict_get d ''type'' = Some (PyStr ''text'')))
         (find_all [''input''] soup) (inputs st)
     \<and> list_all2 (\<lambda>t d. \<forall>k \<in> set [''id'', ''name'', ''class''].
                    tag_get t k = None \<longrightarrow> dict_get d k = Some (spec_default k))
         (find_all [''select''] soup) (selects st)
     \<and> list_all2 (\<lambda>t d. \<forall>k \<in> set [''id'', ''class'', ''href''].
                    tag_get t k = None \<longrightarrow> dict_get d k = Some (spec_default k))
         (find_all [''a''] soup) (links st)"
proof -
  let ?st = "\<lparr>forms = map form_descriptor (find_all [''form''] soup),
              buttons = map (button_descriptor gt) (filter spec_is_button (descendants soup)),
              inputs = map input_descriptor (find_all [''input''] soup),
              selects = map (select_descriptor gt) (find_all [''select''] soup),
              links = map (link_descriptor gt) (find_all [''a''] soup)\<rparr>"
  have st: "extract_html_structure parser gt html = Some ?st"
    using assms by (simp add: extract_html_structure_def buttons_eq)
  have f: "list_all2 (\<lambda>t d. \<forall>k \<in> set [''id'', ''name'', ''class'', ''action''].
                    tag_get t k = None \<longrightarrow> dict_get d k = Some (spec_default k))
         (find_all [''form''] soup) (forms ?st)"
    using form_descriptor_defaults by (simp only: html_structure.simps list_all2_map_same) blast
  have b: "list_all2 (\<lambda>t d. (\<forall>k \<in> set [''id'', ''name'', ''class'', ''type''].
                    tag_get t k = None \<longrightarrow> dict_get d k = Some (spec_default k))
                  \<and> (tag_name t = Some ''input'' \<and> tag_get t ''value'' = None
                       \<longrightarrow> dict_get d ''text'' = Some (PyStr '''')))
         (filter spec_is_button (descendants soup)) (buttons ?st)"
    using button_descriptor_defaults by (simp only: html_structure.simps list_all2_map_same) blast
  have i: "list_all2 (\<lambda>t d. (\<forall>k \<in> set [''id'', ''name'', ''class'', ''placeholder''].
                    tag_get t k = None \<longrightarrow> dict_get d k = Some (spec_default k))
                  \<and> (tag_get t ''type'' = None \<longrightarrow> dict_get d ''type'' = Some (PyStr ''text'')))
         (find_all [''input''] soup) (inputs ?st)"
    using input_descriptor_defaults by (simp only: html_structure.simps list_all2_map_same) blast
  have s: "list_all2 (\<lambda>t d. \<forall>k \<in> set [''id'', ''name'', ''class''].
                    tag_get t k = None \<longrightarrow> dict_get d k = Some (spec_default k))
         (find_all [''select''] soup) (selects ?st)"
    using select_descriptor_defaults by (simp only: html_structure.simps list_all2_map_same) blast
  have l: "list_all2 (\<lambda>t d. \<forall>k \<in> set [''id'', ''class'', ''href''].
                    tag_get t k = None \<longrightarrow> dict_get d k = Some (spec_default k))
         (find_all [''a''] soup) (links ?st)"
    using link_descriptor_defaults by (simp only: html_structure.simps list_all2_map_same) blast
  from st f b i s l show ?thesis by blast
qed

theorem extract_html_structure_defaults_witness:
  "fixed_parser sample_page ''<html></html>'' = Inr sample_page
   \<and> tag_get (Tag ''button'' [] [NavigableString ''Go'']) ''id'' = None
   \<and> extract_html_structure (fixed_parser sample_page) plain_text ''<html></html>''
       = Some \<lparr>forms = [[(''id'', PyStr ''f''), (''name'', PyStr ''''),
                          (''class'', PyList [PyStr ''wide'']), (''action'', PyStr '''')]],
               buttons = [[(''id'', PyStr ''''), (''name'', PyStr ''''), (''class'', PyList []),
                           (''text'', PyStr ''Go''), (''type'', PyStr '''')],
                          [(''id'', PyStr ''''), (''name'', PyStr ''''), (''class'', PyList []),
                           (''text'', PyStr ''Send''), (''type'', PyStr ''submit'')]],
               inputs = [[(''id'', PyStr ''''), (''name'', PyStr ''q''), (''class'', PyList []),
                          (''type'', PyStr ''text''), (''placeholder'', PyStr '''')],
                         [(''id'', PyStr ''''), (''name'', PyStr ''''), (''class'', PyList []),
                          (''type'', PyStr ''submit''), (''placeholder'', PyStr '''')]],
               selects = [[(''id'', PyStr ''''), (''name'', PyStr ''''), (''class'', PyList []),
                           (''options'', PyList [PyStr ''a'', PyStr ''b''])]],
               links = [[(''id'', PyStr ''''), (''class'', PyList []), (''text'', PyStr ''x''),
                         (''href'', PyStr ''/x'')]]\<rparr>"
  using extract_html_structure_defaults
    [of "fixed_parser sample_page" "''<html></html>''" sample_page plain_text]
  by (simp add: fixed_parser_def sample_page_def extract_html_structure_def find_all_def
      tag_get_def dict_get_def tag_get_default_def plain_text_def
      form_descriptor_def button_descriptor_def input_descriptor_def select_descriptor_def
      link_descriptor_def)

text \<open>
  Claim C4 as stated fails: the \<open>type\<close> of an \<open>input\<close> element without attributes is
  reported as \<open>text\<close>, which is not the empty default.
\<close>

theorem extract_html_structure_input_type_default:
  "tag_get (Tag ''input'' [] []) ''type'' = None
   \<and> extract_html_structure (fixed_parser bare_input_page) plain_text ''<input>''
       = Some \<lparr>forms = [], buttons = [],
               inputs = [[(''id'', PyStr ''''), (''name'', PyStr ''''), (''class'', PyList []),
                          (''type'', PyStr ''text''), (''placeholder'', PyStr '''')]],
               selects = [], links = []\<rparr>
   \<and> PyStr ''text'' \<noteq> spec_default ''type''"
  by (simp add: extract_html_structure_def find_all_def input_descriptor_def tag_get_def
      tag_get_default_def dict_get_def spec_default_def fixed_parser_def bare_input_page_def)

section \<open>Properties of the vector store\<close>

subsection \<open>Collection creation\<close>

lemma create_collection_existing:
  assumes "client_get_collections c w0 = (Inr names, w1)" and "nm \<in> set names"
  shows "create_collection c enc nm False w0 = (True, w1)"
  using assms by (simp add: create_collection_def)

lemma client_get_collections_calls:
  "client_get_collections c w = (r, w') \<Longrightarrow>
     calls w' = calls w @ [GetCollections] \<and> server w' = snd (get_collections_op c (server w))"
  by (auto simp: client_get_collections_def split: prod.splits)

lemma client_create_collection_calls:
  "client_create_collection c nm d w = (r, w') \<Longrightarrow> calls w' = calls w @ [CreateCollection nm d]"
  by (auto simp: client_create_collection_def split: prod.splits)

lemma create_collection_no_delete:
  "calls (snd (create_collection c enc nm False w)) = calls w @ [GetCollections]
   \<or> (\<exists>d. calls (snd (create_collection c enc nm False w))
             = calls w @ [GetCollections, CreateCollection nm d])"
proof -
  obtain r w1 where g: "client_get_collections c w = (r, w1)" by (cases "client_get_collections c w")
  have c1: "calls w1 = calls w @ [GetCollections]" using client_get_collections_calls [OF g] by simp
  show ?thesis
  proof (cases r)
    case (Inl e)
    then show ?thesis using g c1 by (simp add: create_collection_def)
  next
    case (Inr names)
    show ?thesis
    proof (cases "nm \<in> set names")
      case True
      then show ?thesis using g Inr c1 by (simp add: create_collection_def)
    next
      case False
      show ?thesis
      proof (cases "enc [''test'']")
        case (Inl e)
        then show ?thesis using g Inr False c1 by (simp add: create_collection_def)
      next
        case (Inr embs)
        note e = this
        show ?thesis
        proof (cases embs)
          case Nil
          then show ?thesis using g \<open>r = Inr names\<close> False c1 e by (simp add: create_collection_def)
        next
          case (Cons v vs)
          obtain r3 w3 where cc: "client_create_collection c nm (length v) w1 = (r3, w3)"
            by (cases "client_create_collection c nm (length v) w1")
          have "calls w3 = calls w @ [GetCollections, CreateCollection nm (length v)]"
            using client_create_collection_calls [OF cc] c1 by simp
          then show ?thesis using g \<open>r = Inr names\<close> False e Cons cc
            by (cases r3) (auto simp add: create_collection_def)
        qed
      qed
    qed
  qed
qed

text \<open>
  Claim C9. When the listing of the collections succeeds and names the collection,
  \<open>create_collection\<close> without \<open>force_recreate\<close> returns \<open>True\<close> after that one
  listing call: it deletes nothing and creates nothing, and the server is in the state the
  listing left. A second such call does the same, and whatever the server answers, a call
  without \<open>force_recreate\<close> never issues a deletion.
\<close>

theorem create_collection_idempotent:
  assumes "client_get_collections c w0 = (Inr names, w1)" and "nm \<in> set names"
    and "client_get_collections c w1 = (Inr names', w2)" and "nm \<in> set names'"
  shows "create_collection c enc nm False w0 = (True, w1)
       \<and> calls w1 = calls w0 @ [GetCollections]
       \<and> server w1 = snd (get_collections_op c (server w0))
       \<and> create_collection c enc nm False (snd (create_collection c enc nm False w0)) = (True, w2)
       \<and> calls w2 = calls w0 @ [GetCollections, GetCollections]
       \<and> (\<forall>w n. DeleteCollection n \<notin> set (drop (length (calls w))
                    (calls (snd (create_collection c enc nm False w)))))"
proof -
  have a: "create_collection c enc nm False w0 = (True, w1)"
    using assms(1,2) by (rule create_collection_existing)
  have b: "create_collection c enc nm False w1 = (True, w2)"
    using assms(3,4) by (rule create_collection_existing)
  have c1: "calls w1 = calls w0 @ [GetCollections]"
    and s1: "server w1 = snd (get_collections_op c (server w0))"
    using client_get_collections_calls [OF assms(1)] by simp_all
  have c2: "calls w2 = calls w0 @ [GetCollections, GetCollections]"
    using client_get_collections_calls [OF assms(3)] c1 by simp
  have d: "DeleteCollection n \<notin> set (drop (length (calls w))
                    (calls (snd (create_collection c enc nm False w))))" for w n
    using create_collection_no_delete [of c enc nm w] by auto
  show ?thesis using a b c1 s1 c2 d by simp
qed

theorem create_collection_idempotent_witness:
  "create_collection mem_client flat_encoder ''docs'' False one_point_store
     = (True, \<lparr>server = \<lparr>mem_collections = [(''docs'', [one_point])], mem_received = 1,
                          mem_failing = []\<rparr>,
               calls = [GetCollections]\<rparr>)
   \<and> create_collection mem_client flat_encoder ''docs'' False
         (snd (create_collection mem_client flat_encoder ''docs'' False one_point_store))
     = (True, \<lparr>server = \<lparr>mem_collections = [(''docs'', [one_point])], mem_received = 2,
                          mem_failing = []\<rparr>,
               calls = [GetCollections, GetCollections]\<rparr>)"
proof -
  let ?w1 = "\<lparr>server = \<lparr>mem_collections = [(''docs'', [one_point])], mem_received = 1,
                         mem_failing = []\<rparr>,
              calls = [GetCollections]\<rparr>"
  let ?w2 = "\<lparr>server = \<lparr>mem_collections = [(''docs'', [one_point])], mem_received = 2,
                         mem_failing = []\<rparr>,
              calls = [GetCollections, GetCollections]\<rparr>"
  have h1: "client_get_collections mem_client one_point_store = (Inr [''docs''], ?w1)"
    by (simp add: client_get_collections_def mem_client_def mem_call_def one_point_store_def)
  have h2: "''docs'' \<in> set [''docs'']" by simp
  have h3: "client_get_collections mem_client ?w1 = (Inr [''docs''], ?w2)"
    by (simp add: client_get_collections_def mem_client_def mem_call_def)
  note r = create_collection_idempotent [where enc = flat_encoder, OF h1 h2 h3 h2]
  show ?thesis
    using r [THEN conjunct1] r [THEN conjunct2, THEN conjunct2, THEN conjunct2, THEN conjunct1]
    by (rule conjI)
qed

subsection \<open>Batched upload\<close>

lemma client_upsert_calls:
  "client_upsert c nm b w = (r, w') \<Longrightarrow> calls w' = calls w @ [Upsert nm b]"
  by (auto simp: client_upsert_def split: prod.splits)

lemma write_batches_calls:
  "write_batches c nm bs w = Some w' \<Longrightarrow> calls w' = calls w @ map (Upsert nm) bs"
proof (induction bs arbitrary: w)
  case Nil
  then show ?case by simp
next
  case (Cons b bs)
  from Cons.prems obtain u w1 where
    up: "client_upsert c nm b w = (Inr u, w1)" and rest: "write_batches c nm bs w1 = Some w'"
    by (auto split: prod.splits sum.splits)
  show ?case
    using Cons.IH [OF rest] client_upsert_calls [OF up] by simp
qed

lemma upload_batches_skip:
  assumes "write_batches c nm (map (batch points) [j ..< k]) w = Some w1"
    and "j \<le> k" and "\<forall>i < k. i * batch_size < length points"
  shows "upload_batches c nm points (j * batch_size) w
           = upload_batches c nm points (k * batch_size) w1"
  using assms
proof (induction "k - j" arbitrary: j w)
  case 0
  then show ?case by simp
next
  case (Suc n)
  then have jk: "j < k" by simp
  then have upt: "[j ..< k] = j # [Suc j ..< k]" by (simp add: upt_conv_Cons)
  from Suc.prems(1) obtain u w' where
    up: "client_upsert c nm (batch points j) w = (Inr u, w')"
    and rest: "write_batches c nm (map (batch points) [Suc j ..< k]) w' = Some w1"
    unfolding upt by (auto split: prod.splits sum.splits)
  have lt: "j * batch_size < length points" using Suc.prems(3) jk by simp
  have step: "upload_batches c nm points (j * batch_size) w
                = upload_batches c nm points (Suc j * batch_size) w'"
    using lt up by (subst upload_batches.simps) (simp add: batch_def add.commute)
  have "upload_batches c nm points (Suc j * batch_size) w'
          = upload_batches c nm points (k * batch_size) w1"
    using Suc.hyps(2) jk Suc.prems(3) by (intro Suc.hyps(1) rest) auto
  with step show ?case by simp
qed

lemma batch_length: "length (batch points j) \<le> 100"
  by (simp add: batch_def batch_size_def)

lemma concat_batches: "concat (map (batch points) [0 ..< m]) = take (m * batch_size) points"
proof (induction m)
  case 0
  show ?case by simp
next
  case (Suc m)
  have "Suc m * batch_size = m * batch_size + batch_size" by simp
  then have "take (Suc m * batch_size) points
          = take (m * batch_size) points @ take batch_size (drop (m * batch_size) points)"
    by (simp only: take_add)
  with Suc show ?case by (simp add: batch_def)
qed

lemma all_batches: "concat (map (batch points) [0 ..< (length points + 99) div 100]) = points"
proof -
  have "length points \<le> ((length points + 99) div 100) * batch_size"
    by (simp add: batch_size_def)
  then show ?thesis by (simp add: concat_batches)
qed

lemma length_make_points: "length (make_points new_id i xs) = length xs"
  by (induction new_id i xs rule: make_points.induct) auto

text \<open>A run in which the first \<open>k\<close> batches are written and the upsert of batch \<open>k\<close>
  raises.\<close>

lemma add_documents_failing_run:
  assumes "documents \<noteq> []"
    and "encode (map content documents) = Inr embeddings" and "embeddings \<noteq> []"
    and "points = make_points new_id 0 (zip documents embeddings)"
    and "k * 100 < length points"
    and "write_batches c nm (map (batch points) [0 ..< k]) w = Some w1"
    and "client_upsert c nm (batch points k) w1 = (Inl e, w2)"
  shows "add_documents c encode new_id nm documents w = (False, w2)
       \<and> calls w2 = calls w @ map (\<lambda>j. Upsert nm (batch points j)) [0 ..< Suc k]
       \<and> calls w1 = calls w @ map (\<lambda>j. Upsert nm (batch points j)) [0 ..< k]
       \<and> server w2 = snd (upsert_op c nm (batch points k) (server w1))
       \<and> (\<forall>j. length (batch points j) \<le> 100)
       \<and> concat (map (batch points) [0 ..< (length points + 99) div 100]) = points"
proof -
  have lt: "\<forall>i < k. i * batch_size < length points"
    using assms(5) by (auto simp: batch_size_def)
  have "upload_batches c nm points 0 w = upload_batches c nm points (k * batch_size) w1"
    using upload_batches_skip [OF _ _ lt, of c nm 0 w w1] assms(6) by simp
  also have "\<dots> = (Inl e, w2)"
    using assms(5,7) by (subst upload_batches.simps) (simp add: batch_def batch_size_def)
  finally have up: "upload_batches c nm points 0 w = (Inl e, w2)" .
  have res: "add_documents c encode new_id nm documents w = (False, w2)"
    using assms(1-3) up unfolding assms(4)
    by (simp add: add_documents_def generate_embeddings_def)
  have c1: "calls w1 = calls w @ map (\<lambda>j. Upsert nm (batch points j)) [0 ..< k]"
    using write_batches_calls [OF assms(6)] by (simp add: comp_def)
  have c2: "calls w2 = calls w @ map (\<lambda>j. Upsert nm (batch points j)) [0 ..< Suc k]"
    using client_upsert_calls [OF assms(7)] c1 by simp
  have s2: "server w2 = snd (upsert_op c nm (batch points k) (server w1))"
    using assms(7) by (auto simp: client_upsert_def split: prod.splits)
  show ?thesis using res c1 c2 s2 batch_length [of points] all_batches [of points] by simp
qed

text \<open>When every batch is written the call returns \<open>True\<close>.\<close>

lemma below_batch_count: "i < (n + 99) div 100 \<Longrightarrow> i * 100 < (n::nat)"
  by arith

lemma batch_count_covers: "\<not> ((n + 99) div 100) * 100 < (n::nat)"
  by arith

lemma add_documents_all_written:
  assumes "documents \<noteq> []"
    and "encode (map content documents) = Inr embeddings" and "embeddings \<noteq> []"
    and "points = make_points new_id 0 (zip documents embeddings)"
    and "write_batches c nm (map (batch points) [0 ..< (length points + 99) div 100]) w = Some w1"
  shows "add_documents c encode new_id nm documents w = (True, w1)"
proof -
  have lt: "\<forall>i < (length points + 99) div 100. i * batch_size < length points"
    unfolding batch_size_def using below_batch_count by blast
  have ge: "\<not> ((length points + 99) div 100) * batch_size < length points"
    unfolding batch_size_def by (rule batch_count_covers)
  have "upload_batches c nm points (0 * batch_size) w
          = upload_batches c nm points (((length points + 99) div 100) * batch_size) w1"
    using assms(5) by (intro upload_batches_skip lt) simp_all
  also have "\<dots> = (Inr (), w1)"
    using ge by (subst upload_batches.simps) (simp only: if_False)
  finally have up: "upload_batches c nm points 0 w = (Inr (), w1)" by simp
  show ?thesis
    using assms(1-3) up unfolding assms(4)
    by (simp add: add_documents_def generate_embeddings_def)
qed

text \<open>Every run of the loop issues the upserts of consecutive batches, from the first
  one on, and nothing else; it returns normally only after the last batch.\<close>

lemma upload_batches_log:
  "i = j * batch_size \<Longrightarrow>
     \<exists>m. j \<le> m
       \<and> (j < m \<longrightarrow> (m - 1) * batch_size < length points)
       \<and> calls (snd (upload_batches c nm points i w))
           = calls w @ map (\<lambda>t. Upsert nm (batch points t)) [j ..< m]
       \<and> (fst (upload_batches c nm points i w) = Inr () \<longrightarrow> \<not> m * batch_size < length points)
       \<and> (fst (upload_batches c nm points i w) \<noteq> Inr () \<longrightarrow> j < m)"
proof (induction c nm points i w arbitrary: j rule: upload_batches.induct)
  case (1 c nm points i w)
  show ?case
  proof (cases "i < length points")
    case False
    then have "upload_batches c nm points i w = (Inr (), w)"
      by (subst upload_batches.simps) simp
    then show ?thesis using False "1.prems" by (intro exI [of _ j]) simp
  next
    case True
    obtain r w' where up: "client_upsert c nm (take batch_size (drop i points)) w = (r, w')"
      by (cases "client_upsert c nm (take batch_size (drop i points)) w")
    have cw: "calls w' = calls w @ [Upsert nm (batch points j)]"
      using client_upsert_calls [OF up] "1.prems" by (simp add: batch_def)
    show ?thesis
    proof (cases r)
      case (Inl e)
      then have "upload_batches c nm points i w = (Inl e, w')"
        using True up by (subst upload_batches.simps) simp
      then show ?thesis using True cw "1.prems" by (intro exI [of _ "Suc j"]) simp
    next
      case (Inr u)
      then have step: "upload_batches c nm points i w
                         = upload_batches c nm points (i + batch_size) w'"
        using True up by (subst upload_batches.simps) simp
      have "i + batch_size = Suc j * batch_size" using "1.prems" by simp
      from "1.IH" [OF True up [symmetric] Inr this]
      obtain m where m: "Suc j \<le> m"
        "Suc j < m \<longrightarrow> (m - 1) * batch_size < length points"
        "calls (snd (upload_batches c nm points (i + batch_size) w'))
           = calls w' @ map (\<lambda>t. Upsert nm (batch points t)) [Suc j ..< m]"
        "fst (upload_batches c nm points (i + batch_size) w') = Inr ()
           \<longrightarrow> \<not> m * batch_size < length points"
        by blast
      have lt: "j < m" using m(1) by simp
      have upt: "[j ..< m] = j # [Suc j ..< m]" using lt by (simp add: upt_conv_Cons)
      have bound: "(m - 1) * batch_size < length points"
      proof (cases "Suc j < m")
        case True
        then show ?thesis using m(2) by simp
      next
        case False
        then have "m = Suc j" using m(1) by simp
        then show ?thesis using \<open>i < length points\<close> "1.prems" by simp
      qed
      show ?thesis
        using lt bound m(3,4) cw unfolding step by (intro exI [of _ m]) (simp add: upt)
    qed
  qed
qed

lemma batch_count_bound: "(0 < m \<longrightarrow> (m - 1) * 100 < n) \<Longrightarrow> m \<le> (n + 99) div (100::nat)"
  by arith

lemma batch_count_reached: "\<not> m * 100 < n \<Longrightarrow> (n + 99) div (100::nat) \<le> m"
  by arith

lemma add_documents_upload:
  assumes "documents \<noteq> []"
    and "encode (map content documents) = Inr embeddings" and "embeddings \<noteq> []"
    and "points = make_points new_id 0 (zip documents embeddings)"
  shows "fst (add_documents c encode new_id nm documents w)
           = (fst (upload_batches c nm points 0 w) = Inr ())
       \<and> snd (add_documents c encode new_id nm documents w)
           = snd (upload_batches c nm points 0 w)"
proof -
  obtain r w' where up: "upload_batches c nm points 0 w = (r, w')"
    by (cases "upload_batches c nm points 0 w")
  show ?thesis
    using assms(1-3) up unfolding assms(4)
    by (cases r) (simp_all add: add_documents_def generate_embeddings_def)
qed

lemma add_documents_log:
  assumes "documents \<noteq> []"
    and "encode (map content documents) = Inr embeddings" and "embeddings \<noteq> []"
    and "points = make_points new_id 0 (zip documents embeddings)"
  shows "\<exists>m. m \<le> (length points + 99) div 100
           \<and> calls (snd (add_documents c encode new_id nm documents w))
               = calls w @ map (\<lambda>j. Upsert nm (take 100 (drop (j * 100) points))) [0 ..< m]
           \<and> (fst (add_documents c encode new_id nm documents w)
                \<longrightarrow> m = (length points + 99) div 100)
           \<and> (\<not> fst (add_documents c encode new_id nm documents w) \<longrightarrow> 0 < m)"
proof -
  have z: "(0::nat) = 0 * batch_size" by simp
  from upload_batches_log [OF z, of points c nm w]
  obtain m where m:
    "0 < m \<longrightarrow> (m - 1) * batch_size < length points"
    "calls (snd (upload_batches c nm points 0 w))
       = calls w @ map (\<lambda>t. Upsert nm (batch points t)) [0 ..< m]"
    "fst (upload_batches c nm points 0 w) = Inr () \<longrightarrow> \<not> m * batch_size < length points"
    "fst (upload_batches c nm points 0 w) \<noteq> Inr () \<longrightarrow> 0 < m"
    by blast
  note r = add_documents_upload [where encode = encode and new_id = new_id and c = c and nm = nm and w = w, OF assms]
  have le: "m \<le> (length points + 99) div 100"
    using m(1) unfolding batch_size_def by (rule batch_count_bound)
  have full: "fst (add_documents c encode new_id nm documents w)
                \<longrightarrow> m = (length points + 99) div 100"
  proof
    assume "fst (add_documents c encode new_id nm documents w)"
    then have "\<not> m * 100 < length points" using r m(3) by (simp add: batch_size_def)
    then have "(length points + 99) div 100 \<le> m" by (rule batch_count_reached)
    with le show "m = (length points + 99) div 100" by simp
  qed
  have log: "calls (snd (add_documents c encode new_id nm documents w))
               = calls w @ map (\<lambda>j. Upsert nm (take 100 (drop (j * 100) points))) [0 ..< m]"
    using r m(2) by (simp add: batch_def batch_size_def)
  have pos: "\<not> fst (add_documents c encode new_id nm documents w) \<longrightarrow> 0 < m"
    using r m(4) by simp
  from le log full pos show ?thesis by blast
qed

text \<open>
  Claim C6. For a non-empty document list whose embedding succeeds, in every run of
  \<open>add_documents\<close>, failing or not, the client calls it makes are the upserts of the
  slices \<open>points[100 j : 100 j + 100]\<close> for \<open>j = 0, ..., m - 1\<close>, in this order and
  nothing else, with \<open>m\<close> at most the number of batches; all batches are sent when it
  returns \<open>True\<close>, and at least one when it returns \<open>False\<close>. Every slice has at most
  100 points and together the slices are all the points. If the first \<open>k\<close> batches are
  written and the upsert of batch \<open>k\<close> raises, the call returns \<open>False\<close> in the world
  that failing call left: the upserts issued are those of batches \<open>0\<close> to \<open>k\<close> and no
  other, and nothing is issued to undo the \<open>k\<close> batches already written. If every batch
  is written the call returns \<open>True\<close>.
\<close>

theorem add_documents_partial_write:
  assumes "documents \<noteq> []"
    and "encode (map content documents) = Inr embeddings" and "embeddings \<noteq> []"
    and "points = make_points new_id 0 (zip documents embeddings)"
  shows "(\<exists>m. m \<le> (length points + 99) div 100
            \<and> calls (snd (add_documents c encode new_id nm documents w))
                = calls w @ map (\<lambda>j. Upsert nm (take 100 (drop (j * 100) points))) [0 ..< m]
            \<and> (fst (add_documents c encode new_id nm documents w)
                 \<longrightarrow> m = (length points + 99) div 100)
            \<and> (\<not> fst (add_documents c encode new_id nm documents w) \<longrightarrow> 0 < m))
       \<and> (\<forall>j. batch points j = take 100 (drop (j * 100) points)
               \<and> length (take 100 (drop (j * 100) points)) \<le> 100)
       \<and> concat (map (\<lambda>j. take 100 (drop (j * 100) points))
                   [0 ..< (length points + 99) div 100]) = points
       \<and> (\<forall>k w1 e w2.
             k * 100 < length points
             \<and> write_batches c nm (map (batch points) [0 ..< k]) w = Some w1
             \<and> client_upsert c nm (batch points k) w1 = (Inl e, w2)
             \<longrightarrow> add_documents c encode new_id nm documents w = (False, w2)
                 \<and> calls w2 = calls w @ map (\<lambda>j. Upsert nm (batch points j)) [0 ..< Suc k]
                 \<and> calls w1 = calls w @ map (\<lambda>j. Upsert nm (batch points j)) [0 ..< k]
                 \<and> server w2 = snd (upsert_op c nm (batch points k) (server w1)))
       \<and> (\<forall>w1. write_batches c nm (map (batch points) [0 ..< (length points + 99) div 100]) w
                  = Some w1
                \<longrightarrow> add_documents c encode new_id nm documents w = (True, w1)
                    \<and> calls w1 = calls w @ map (\<lambda>j. Upsert nm (batch points j))
                                             [0 ..< (length points + 99) div 100])"
proof -
  note log = add_documents_log [where encode = encode and new_id = new_id and c = c and nm = nm and w = w, OF assms]
  have slice: "batch points j = take 100 (drop (j * 100) points)
               \<and> length (take 100 (drop (j * 100) points)) \<le> 100" for j
    by (simp add: batch_def batch_size_def)
  have fn: "batch points = (\<lambda>j. take 100 (drop (j * 100) points))"
    by (rule ext) (simp add: batch_def batch_size_def)
  have "concat (map (batch points) [0 ..< (length points + 99) div 100]) = points"
    by (rule all_batches)
  then have cover: "concat (map (\<lambda>j. take 100 (drop (j * 100) points))
                   [0 ..< (length points + 99) div 100]) = points"
    unfolding fn .
  have failing: "add_documents c encode new_id nm documents w = (False, w2)
                 \<and> calls w2 = calls w @ map (\<lambda>j. Upsert nm (batch points j)) [0 ..< Suc k]
                 \<and> calls w1 = calls w @ map (\<lambda>j. Upsert nm (batch points j)) [0 ..< k]
                 \<and> server w2 = snd (upsert_op c nm (batch points k) (server w1))"
    if "k * 100 < length points"
      and "write_batches c nm (map (batch points) [0 ..< k]) w = Some w1"
      and "client_upsert c nm (batch points k) w1 = (Inl e, w2)" for k w1 e w2
    using add_documents_failing_run [where encode = encode and new_id = new_id and c = c and nm = nm and w = w, OF assms that] by simp
  have written: "add_documents c encode new_id nm documents w = (True, w1)
                 \<and> calls w1 = calls w @ map (\<lambda>j. Upsert nm (batch points j))
                                          [0 ..< (length points + 99) div 100]"
    if "write_batches c nm (map (batch points) [0 ..< (length points + 99) div 100]) w = Some w1"
    for w1
    using add_documents_all_written [where encode = encode and new_id = new_id and c = c and nm = nm and w = w, OF assms that] write_batches_calls [OF that]
    by (simp add: comp_def)
  from log slice cover failing written show ?thesis by blast
qed

theorem add_documents_partial_write_witness:
  "add_documents mem_client flat_encoder numbered_uuid ''docs'' many_documents failing_second
     = (False,
        \<lparr>server = \<lparr>mem_collections = [(''docs'', batch many_points 0)], mem_received = 2,
                    mem_failing = [1]\<rparr>,
         calls = [Upsert ''docs'' (batch many_points 0), Upsert ''docs'' (batch many_points 1)]\<rparr>)
   \<and> add_documents mem_client flat_encoder numbered_uuid ''docs'' many_documents empty_store
     = (True,
        \<lparr>server = \<lparr>mem_collections
                      = [(''docs'', batch many_points 0 @ batch many_points 1 @ batch many_points 2)],
                    mem_received = 3, mem_failing = []\<rparr>,
         calls = [Upsert ''docs'' (batch many_points 0), Upsert ''docs'' (batch many_points 1),
                  Upsert ''docs'' (batch many_points 2)]\<rparr>)
   \<and> length many_points = 250
   \<and> map (\<lambda>j. length (batch many_points j)) [0, 1, 2] = [100, 100, 50]"
proof -
  let ?w1 = "\<lparr>server = \<lparr>mem_collections = [(''docs'', batch many_points 0)], mem_received = 1,
                         mem_failing = [1]\<rparr>,
              calls = [Upsert ''docs'' (batch many_points 0)]\<rparr>"
  let ?w2 = "\<lparr>server = \<lparr>mem_collections = [(''docs'', batch many_points 0)], mem_received = 2,
                         mem_failing = [1]\<rparr>,
              calls = [Upsert ''docs'' (batch many_points 0), Upsert ''docs'' (batch many_points 1)]\<rparr>"
  let ?w3 = "\<lparr>server = \<lparr>mem_collections
                      = [(''docs'', batch many_points 0 @ batch many_points 1 @ batch many_points 2)],
                    mem_received = 3, mem_failing = []\<rparr>,
         calls = [Upsert ''docs'' (batch many_points 0), Upsert ''docs'' (batch many_points 1),
                  Upsert ''docs'' (batch many_points 2)]\<rparr>"
  have h1: "many_documents \<noteq> []" by (simp add: many_documents_def)
  have h2: "flat_encoder (map content many_documents) = Inr (replicate 250 [0, 1])"
    by (simp add: flat_encoder_def many_documents_def)
  have h3: "replicate 250 [0, 1::real] \<noteq> []" by simp
  have h4: "many_points = make_points numbered_uuid 0 (zip many_documents (replicate 250 [0, 1]))"
    by (simp add: many_points_def)
  have len: "length many_points = 250"
    by (simp add: many_points_def length_make_points many_documents_def)
  have h5: "1 * 100 < length many_points" by (simp add: len)
  have h6: "write_batches mem_client ''docs'' (map (batch many_points) [0 ..< 1]) failing_second
              = Some ?w1"
    by (simp add: failing_second_def client_upsert_def mem_client_def mem_call_def)
  have h7: "client_upsert mem_client ''docs'' (batch many_points 1) ?w1
              = (Inl (OtherError ''connection refused''), ?w2)"
    by (simp add: client_upsert_def mem_client_def mem_call_def)
  have three: "[0 ..< (length many_points + 99) div 100] = [0, 1, 2]"
    unfolding len by code_simp
  have h8: "write_batches mem_client ''docs''
              (map (batch many_points) [0 ..< (length many_points + 99) div 100]) empty_store
              = Some ?w3"
    unfolding three
    by (simp add: empty_store_def client_upsert_def mem_client_def mem_call_def)
  have sizes: "map (\<lambda>j. length (batch many_points j)) [0, 1, 2] = [100, 100, 50]"
    by (simp add: batch_def batch_size_def len)
  note failing_run = add_documents_partial_write
      [where encode = flat_encoder and new_id = numbered_uuid and c = mem_client
         and w = failing_second, OF h1 h2 h3 h4,
       THEN conjunct2, THEN conjunct2, THEN conjunct2, THEN conjunct1,
       THEN spec, THEN spec, THEN spec, THEN spec, THEN mp, OF conjI [OF h5 conjI [OF h6 h7]],
       THEN conjunct1]
  note success_run = add_documents_partial_write
      [where encode = flat_encoder and new_id = numbered_uuid and c = mem_client
         and w = empty_store, OF h1 h2 h3 h4,
       THEN conjunct2, THEN conjunct2, THEN conjunct2, THEN conjunct2,
       THEN spec, THEN mp, OF h8, THEN conjunct1]
  show ?thesis
    using failing_run success_run len sizes by (intro conjI)
qed

subsection \<open>Search and its retry\<close>

lemma client_search_calls:
  "client_search c nm v k f w = (r, w') \<Longrightarrow> calls w' = calls w @ [Search nm v k f]"
  by (auto simp: client_search_def split: prod.splits)

lemma search_body_unfiltered_calls:
  assumes "search_body c enc nm q k None w = (r, w')"
  shows "calls w' = calls w \<or> (\<exists>v. calls w' = calls w @ [Search nm v k None])"
proof (cases "enc [q]")
  case (Inl e)
  then show ?thesis using assms by (simp add: search_body_def)
next
  case (Inr vs)
  show ?thesis
  proof (cases vs)
    case Nil
    then show ?thesis using assms Inr by (simp add: search_body_def)
  next
    case (Cons v rest)
    obtain r1 w1 where cs: "client_search c nm v k None w = (r1, w1)"
      by (cases "client_search c nm v k None w")
    have "w' = w1"
      using assms Inr Cons cs
      by (auto simp: search_body_def build_filter_def split: sum.splits)
    then show ?thesis using client_search_calls [OF cs] by blast
  qed
qed

text \<open>
  Claim C7. When the \<open>try\<close> block of \<open>search\<close> fails and a non-empty filter dictionary
  was passed, the result is that of one more attempt made without a filter, the empty list
  if that attempt fails too; that attempt issues at most one client call, an unfiltered
  search. When no filter was passed (\<open>None\<close> or the empty dictionary) nothing is retried
  and the result is the empty list.
\<close>

theorem search_retries_once_without_filter:
  assumes "search_body c enc nm q k fd w0 = (Inl e, w1)"
  shows "search c enc nm q k fd w0
           = (if has_filter fd
              then (case search_body c enc nm q k None w1 of
                      (Inr results, w2) \<Rightarrow> (results, w2)
                    | (Inl e', w2) \<Rightarrow> ([], w2))
              else ([], w1))
         \<and> (calls (snd (search c enc nm q k fd w0)) = calls w1
             \<or> (\<exists>v. has_filter fd
                    \<and> calls (snd (search c enc nm q k fd w0)) = calls w1 @ [Search nm v k None]))"
proof -
  have nf: "\<not> has_filter None" by (simp add: has_filter_def)
  have retry: "search c enc nm q k None w1
                 = (case search_body c enc nm q k None w1 of
                      (Inr results, w2) \<Rightarrow> (results, w2)
                    | (Inl e', w2) \<Rightarrow> ([], w2))"
    by (subst search.simps) (simp add: nf split: prod.splits sum.splits)
  have eq: "search c enc nm q k fd w0
           = (if has_filter fd
              then (case search_body c enc nm q k None w1 of
                      (Inr results, w2) \<Rightarrow> (results, w2)
                    | (Inl e', w2) \<Rightarrow> ([], w2))
              else ([], w1))"
    using assms retry by (subst search.simps) simp
  obtain r2 w2 where b2: "search_body c enc nm q k None w1 = (r2, w2)"
    by (cases "search_body c enc nm q k None w1")
  have snd2: "snd (case search_body c enc nm q k None w1 of
                      (Inr results, w2) \<Rightarrow> (results, w2)
                    | (Inl e', w2) \<Rightarrow> ([], w2)) = w2"
    using b2 by (cases r2) simp_all
  show ?thesis
  proof (cases "has_filter fd")
    case True
    then show ?thesis
      using eq snd2 search_body_unfiltered_calls [OF b2] by auto
  next
    case False
    then show ?thesis using eq by simp
  qed
qed

theorem search_retries_once_without_filter_witness:
  "search mem_client flat_encoder ''docs'' ''q'' 5 (Some [(''source'', PyStr ''a.html'')])
       one_point_store
     = ([[(''content'', PyStr ''hello''), (''metadata'', PyDict []), (''score'', PyFloat 1)]],
        \<lparr>server = \<lparr>mem_collections = [(''docs'', [one_point])], mem_received = 2,
                    mem_failing = []\<rparr>,
         calls = [Search ''docs'' [0, 1] 5 (Some [(''metadata.source'', PyStr ''a.html'')]),
                  Search ''docs'' [0, 1] 5 None]\<rparr>)
   \<and> search mem_client flat_encoder ''docs'' ''q'' 5 None unreachable_store
     = ([], \<lparr>server = \<lparr>mem_collections = [(''docs'', [one_point])], mem_received = 1,
                        mem_failing = [0, 1]\<rparr>,
             calls = [Search ''docs'' [0, 1] 5 None]\<rparr>)"
proof -
  let ?fd = "Some [(''source'', PyStr ''a.html'')]"
  let ?w1 = "\<lparr>server = \<lparr>mem_collections = [(''docs'', [one_point])], mem_received = 1,
                         mem_failing = []\<rparr>,
              calls = [Search ''docs'' [0, 1] 5 (Some [(''metadata.source'', PyStr ''a.html'')])]\<rparr>"
  let ?u1 = "\<lparr>server = \<lparr>mem_collections = [(''docs'', [one_point])], mem_received = 1,
                        mem_failing = [0, 1]\<rparr>,
              calls = [Search ''docs'' [0, 1] 5 None]\<rparr>"
  have a: "search_body mem_client flat_encoder ''docs'' ''q'' 5 ?fd one_point_store
             = (Inl (OtherError ''index required but not found''), ?w1)"
    by (simp add: search_body_def flat_encoder_def build_filter_def client_search_def
        mem_client_def mem_call_def one_point_store_def)
  have b: "search_body mem_client flat_encoder ''docs'' ''q'' 5 None unreachable_store
             = (Inl (OtherError ''connection refused''), ?u1)"
    by (simp add: search_body_def flat_encoder_def build_filter_def client_search_def
        mem_client_def mem_call_def unreachable_store_def)
  have c: "search_body mem_client flat_encoder ''docs'' ''q'' 5 None ?w1
             = (Inr [[(''content'', PyStr ''hello''), (''metadata'', PyDict []), (''score'', PyFloat 1)]],
                \<lparr>server = \<lparr>mem_collections = [(''docs'', [one_point])], mem_received = 2,
                    mem_failing = []\<rparr>,
         calls = [Search ''docs'' [0, 1] 5 (Some [(''metadata.source'', PyStr ''a.html'')]),
                  Search ''docs'' [0, 1] 5 None]\<rparr>)"
    by (simp add: search_body_def flat_encoder_def build_filter_def client_search_def
        mem_client_def mem_call_def one_point_def)
  show ?thesis
    using search_retries_once_without_filter [OF a] search_retries_once_without_filter [OF b] unfolding c by (simp add: has_filter_def)
qed

subsection \<open>Collection information\<close>


text \<open>An exception anywhere in the \<open>try\<close> block, from the transport or from decoding the
  answer, gives the full defaults.\<close>

lemma get_collection_info_exception:
  "get_collection_info_body cfg rg nm = Inl e \<Longrightarrow>
     get_collection_info cfg rg nm
       = [(''name'', PyStr nm), (''points_count'', PyInt 0),
          (''vectors_count'', PyInt 0), (''status'', PyStr ''unknown'')]"
  by (simp add: get_collection_info_def)

text \<open>
  Claim C8, at the input where the code departs from it. On a response whose status is
  not 200 \<open>get_collection_info\<close> returns only the name and a points count of 0: the
  dictionary has no \<open>status\<close> key, where the claim promises the status \<open>unknown\<close>.
\<close>

theorem get_collection_info_non_200_without_status:
  assumes "rg (collection_url cfg nm) (request_headers cfg) = Inr resp"
    and "status_code resp \<noteq> 200"
  shows "get_collection_info cfg rg nm = [(''name'', PyStr nm), (''points_count'', PyInt 0)]
       \<and> dict_get (get_collection_info cfg rg nm) ''status'' = None
       \<and> dict_get (get_collection_info cfg rg nm) ''points_count'' = Some (PyInt 0)"
  using assms by (simp add: get_collection_info_def get_collection_info_body_def dict_get_def)

theorem get_collection_info_non_200_without_status_witness:
  "get_collection_info local_settings (answer_with 404) ''qa_agent_docs''
     = [(''name'', PyStr ''qa_agent_docs''), (''points_count'', PyInt 0)]
   \<and> dict_get (get_collection_info local_settings (answer_with 404) ''qa_agent_docs'') ''status''
       = None"
  using get_collection_info_non_200_without_status [of "answer_with 404" local_settings "''qa_agent_docs''"
               "\<lparr>status_code = 404, json = Inr (PyDict [])\<rparr>"]
  by (simp add: answer_with_def dict_get_def)

end
